theory Spec2Isabelle
  imports Complex_Main "HOL-Library.Word"
begin

section \<open>JavaScript numbers\<close>

text \<open>
  A JavaScript number is an IEEE 754 binary64 value: a finite value, one of the two
  infinities, or NaN. A finite value is kept as the real number it denotes. The two zeros
  are identified; the only divisors of the code are image dimensions (non-negative
  integers) and the literal 2, so a zero divisor always stands for +0.
\<close>

datatype jsnum = Fin real | PInf | NInf | NaN

text \<open>The nearest integer, a tie going to the even one.\<close>

definition roundHalfEven :: "real \<Rightarrow> int" where
  "roundHalfEven q =
     (let f = \<lfloor>q\<rfloor>
      in if q < of_int f + 1 / 2 then f
         else if of_int f + 1 / 2 < q then f + 1
         else if even f then f else f + 1)"

text \<open>
  The exponent of the binade of a magnitude \<open>a\<close>: the \<open>e\<close> with
  \<open>2\<^sup>e \<le> a < 2\<^sup>e\<^sup>+\<^sup>1\<close>, kept within \<open>-1022 .. 1023\<close> (the subnormal numbers share the
  exponent \<open>-1022\<close>). It is found by counting up from \<open>-1022\<close>.
\<close>

fun binadeFrom :: "nat \<Rightarrow> int \<Rightarrow> real \<Rightarrow> int" where
  "binadeFrom 0 e a = e"
| "binadeFrom (Suc n) e a = (if a < 2 powi (e + 1) then e else binadeFrom n (e + 1) a)"

definition binade :: "real \<Rightarrow> int" where
  "binade a = binadeFrom 2045 (- 1022) a"

text \<open>
  The binary64 value of a real number: the magnitude is rounded to the nearest multiple
  of the unit in the last place of its binade (53 significant bits), a tie going to the
  even multiple; a magnitude below the smallest subnormal number rounds to zero or to that
  number, and a result of \<open>2\<^sup>1\<^sup>0\<^sup>2\<^sup>4\<close> or more is an infinity. Every arithmetic operation
  below returns the value of its exact result under this rounding.
\<close>

definition rnd :: "real \<Rightarrow> jsnum" where
  "rnd x =
     (let a = \<bar>x\<bar>;
          ulp = 2 powi (binade a - 52);
          m = of_int (roundHalfEven (a / ulp)) * ulp
      in if 2 powi 1024 \<le> m then (if 0 < x then PInf else NInf)
         else Fin (if 0 < x then m else - m))"

text \<open>A real number that is a binary64 value.\<close>

definition isDouble :: "real \<Rightarrow> bool" where
  "isDouble x \<longleftrightarrow> rnd x = Fin x"

text \<open>A decimal literal of the source denotes the binary64 value nearest to it.\<close>

definition lit :: "real \<Rightarrow> jsnum" where
  "lit r = rnd r"

fun isFinite :: "jsnum \<Rightarrow> bool" where
  "isFinite (Fin a) = True"
| "isFinite _ = False"

fun jneg :: "jsnum \<Rightarrow> jsnum" where
  "jneg (Fin a) = Fin (- a)"
| "jneg PInf = NInf"
| "jneg NInf = PInf"
| "jneg NaN = NaN"

fun jadd :: "jsnum \<Rightarrow> jsnum \<Rightarrow> jsnum" where
  "jadd (Fin a) (Fin b) = rnd (a + b)"
| "jadd NaN _ = NaN"
| "jadd _ NaN = NaN"
| "jadd PInf NInf = NaN"
| "jadd NInf PInf = NaN"
| "jadd PInf _ = PInf"
| "jadd _ PInf = PInf"
| "jadd NInf _ = NInf"
| "jadd _ NInf = NInf"

definition jsub :: "jsnum \<Rightarrow> jsnum \<Rightarrow> jsnum" where
  "jsub a b = jadd a (jneg b)"

fun jmul :: "jsnum \<Rightarrow> jsnum \<Rightarrow> jsnum" where
  "jmul (Fin a) (Fin b) = rnd (a * b)"
| "jmul NaN _ = NaN"
| "jmul _ NaN = NaN"
| "jmul (Fin a) PInf = (if a = 0 then NaN else if 0 < a then PInf else NInf)"
| "jmul (Fin a) NInf = (if a = 0 then NaN else if 0 < a then NInf else PInf)"
| "jmul PInf (Fin b) = (if b = 0 then NaN else if 0 < b then PInf else NInf)"
| "jmul NInf (Fin b) = (if b = 0 then NaN else if 0 < b then NInf else PInf)"
| "jmul PInf PInf = PInf"
| "jmul PInf NInf = NInf"
| "jmul NInf PInf = NInf"
| "jmul NInf NInf = PInf"

fun jdiv :: "jsnum \<Rightarrow> jsnum \<Rightarrow> jsnum" where
  "jdiv (Fin a) (Fin b) =
     (if b = 0 then (if a = 0 then NaN else if 0 < a then PInf else NInf) else rnd (a / b))"
| "jdiv NaN _ = NaN"
| "jdiv _ NaN = NaN"
| "jdiv (Fin a) PInf = Fin 0"
| "jdiv (Fin a) NInf = Fin 0"
| "jdiv PInf (Fin b) = (if 0 \<le> b then PInf else NInf)"
| "jdiv NInf (Fin b) = (if 0 \<le> b then NInf else PInf)"
| "jdiv PInf PInf = NaN"
| "jdiv PInf NInf = NaN"
| "jdiv NInf PInf = NaN"
| "jdiv NInf NInf = NaN"

text \<open>The comparison \<open>a < b\<close>; every comparison with NaN is false.\<close>

fun jlt :: "jsnum \<Rightarrow> jsnum \<Rightarrow> bool" where
  "jlt (Fin a) (Fin b) = (a < b)"
| "jlt NaN _ = False"
| "jlt _ NaN = False"
| "jlt _ NInf = False"
| "jlt PInf _ = False"
| "jlt NInf _ = True"
| "jlt _ PInf = True"

definition jgt :: "jsnum \<Rightarrow> jsnum \<Rightarrow> bool" where
  "jgt a b = jlt b a"

text \<open>\<open>Math.min\<close> and \<open>Math.max\<close> of two arguments: NaN if either is NaN.\<close>

definition jmin :: "jsnum \<Rightarrow> jsnum \<Rightarrow> jsnum" where
  "jmin a b = (if a = NaN \<or> b = NaN then NaN else if jlt b a then b else a)"

definition jmax :: "jsnum \<Rightarrow> jsnum \<Rightarrow> jsnum" where
  "jmax a b = (if a = NaN \<or> b = NaN then NaN else if jlt a b then b else a)"

section \<open>Data model (types/index.ts)\<close>

text \<open>
  Record fields carry a short prefix where the source's field name (\<open>x\<close>, \<open>y\<close>,
  \<open>width\<close>, \<open>height\<close>, \<open>id\<close>) is used by several interfaces.
\<close>

record faceLandmarks =
  lm_x :: jsnum
  lm_y :: jsnum
  lm_z :: "jsnum option"

record boundingBox =
  box_x :: jsnum
  box_y :: jsnum
  box_width :: jsnum
  box_height :: jsnum

datatype expressionType = neutral | happy | sad | angry | surprised | fear | disgust

text \<open>
  Of the expression of a detected face only its type is kept: the confidence and the
  feature scores are not read by the pipeline.
\<close>

record detectedFace =
  face_id :: string
  landmarks :: "faceLandmarks list"
  boundingBox :: boundingBox
  confidence :: jsnum
  expression :: "expressionType option"

text \<open>
  An image source of \<open>drawImage\<close>: an \<open>HTMLImageElement\<close> or an
  \<open>HTMLVideoElement\<close>. Its dimensions are unsigned integers (\<open>width\<close> and
  \<open>height\<close> of an image, \<open>videoWidth\<close> and \<open>videoHeight\<close> of a video), taken to be
  those of its pixel data; \<open>img_src\<close> names the pixel source. The state of the element
  is \<open>Available\<close> when its pixel data can be drawn, \<open>Unavailable\<close> when there is none
  (an image that is not yet decoded, a video without a current frame), and \<open>Broken\<close> for
  an image element whose load failed. \<open>img_originClean\<close> tells whether the pixel data may
  be read back by the page (same origin, or approved by CORS).
\<close>

datatype elementState = Available | Unavailable | Broken

record image =
  img_src :: string
  img_width :: nat
  img_height :: nat
  img_state :: elementState
  img_originClean :: bool

record faceSwapConfig =
  quality :: string
  blendMode :: string
  featherAmount :: jsnum
  colorMatch :: bool
  realTimeMode :: bool

section \<open>Transform solver (calculateFaceTransform)\<close>

record transform =
  scaleX :: jsnum
  scaleY :: jsnum
  translateX :: jsnum
  translateY :: jsnum

definition calculateFaceTransform ::
    "boundingBox \<Rightarrow> image \<Rightarrow> faceLandmarks list \<Rightarrow> transform" where
  "calculateFaceTransform bb targetImage u_landmarks =
     (let sX = jdiv (box_width bb) (Fin (real (img_width targetImage)));
          sY = jdiv (box_height bb) (Fin (real (img_height targetImage)));
          uniformScale = jmin sX sY;
          finalScaleX = jadd uniformScale (jmul (jsub sX uniformScale) (lit 0.3));
          finalScaleY = jadd uniformScale (jmul (jsub sY uniformScale) (lit 0.3));
          scaledWidth = jmul (Fin (real (img_width targetImage))) finalScaleX;
          scaledHeight = jmul (Fin (real (img_height targetImage))) finalScaleY;
          tX = jsub (box_x bb) (jdiv (jsub scaledWidth (box_width bb)) (Fin 2));
          tY = jsub (box_y bb) (jdiv (jsub scaledHeight (box_height bb)) (Fin 2))
      in \<lparr> scaleX = finalScaleX, scaleY = finalScaleY, translateX = tX, translateY = tY \<rparr>)"

section \<open>Property lookup on object literals\<close>

text \<open>
  The lookup tables of the code are object literals read with a computed key
  (\<open>table[key] || fallback\<close>). Such an object inherits from \<open>Object.prototype\<close>, so
  a key that is not an own property but names a member of \<open>Object.prototype\<close> yields
  that member (a function, or the prototype object for \<open>__proto__\<close>), not
  \<open>undefined\<close>. The names are those of the ECMAScript standard.
\<close>

definition objectPrototypeKeys :: "string list" where
  "objectPrototypeKeys =
     [''constructor'', ''hasOwnProperty'', ''isPrototypeOf'', ''propertyIsEnumerable'',
      ''toLocaleString'', ''toString'', ''valueOf'', ''__proto__'',
      ''__defineGetter__'', ''__defineSetter__'', ''__lookupGetter__'', ''__lookupSetter__'']"

datatype 'a jsval = Undefined | Own 'a | Inherited string

definition getProp :: "(string \<times> 'a) list \<Rightarrow> string \<Rightarrow> 'a jsval" where
  "getProp obj k =
     (case map_of obj k of
        Some v \<Rightarrow> Own v
      | None \<Rightarrow> if k \<in> set objectPrototypeKeys then Inherited k else Undefined)"

text \<open>
  The operator \<open>||\<close> with a constant right operand. Every own value of the tables below
  is truthy (a non-empty string, a non-zero number, an object), and so is every member of
  \<open>Object.prototype\<close>; only \<open>undefined\<close> takes the fallback.
\<close>

definition orElse :: "'a jsval \<Rightarrow> 'a \<Rightarrow> 'a jsval" where
  "orElse v d = (case v of Undefined \<Rightarrow> Own d | _ \<Rightarrow> v)"

section \<open>The drawing surface (Canvas 2D context)\<close>

datatype jsError =
    TypeError | IndexSizeError | InvalidStateError | SecurityError | LoadError | BackendError

text \<open>A colour \<open>rgba(r,g,b,a)\<close>, parsed.\<close>

type_synonym rgba = "nat \<times> nat \<times> nat \<times> real"

record radialGradient =
  grad_x0 :: real
  grad_y0 :: real
  grad_r0 :: real
  grad_x1 :: real
  grad_y1 :: real
  grad_r1 :: real
  colorStops :: "(real \<times> rgba) list"

datatype fillStyle = Color string | Gradient radialGradient

record drawState =
  globalCompositeOperation :: string
  globalAlpha :: real
  filter :: string
  fillStyle :: fillStyle
  imageSmoothingEnabled :: bool
  imageSmoothingQuality :: string

definition defaultState :: drawState where
  "defaultState =
     \<lparr> globalCompositeOperation = ''source-over'', globalAlpha = 1, filter = ''none'',
       fillStyle = Color ''#000000'', imageSmoothingEnabled = True,
       imageSmoothingQuality = ''low'' \<rparr>"

text \<open>
  The surface is kept as the history of the calls that wrote to it. A painting call is
  recorded with the drawing state it was issued under; its effect on the pixels is the
  rasteriser's. A call that returns without painting is not recorded. \<open>PutImageData src sx sy sw sh dx dy s\<close> is \<open>putImageData\<close> at
  \<open>(dx, dy)\<close> of the block that \<open>getImageData(sx, sy, sw, sh)\<close> read from \<open>src\<close>.
\<close>

datatype paintCall =
    DrawImage image jsnum jsnum
  | DrawImageScaled image jsnum jsnum jsnum jsnum
  | FillRect jsnum jsnum jsnum jsnum

datatype surface =
    Blank nat nat
  | Paint drawState paintCall surface
  | PutImageData surface int int int int int int surface

text \<open>The object \<open>getImageData\<close> returns: a rectangle of a surface.\<close>

datatype imageData = ImageData surface int int int int

text \<open>The service object of the compositing pipeline: its canvas and 2D context.\<close>

record service =
  isInitialized :: bool
  canvas_width :: nat
  canvas_height :: nat
  ctx :: drawState
  stateStack :: "drawState list"
  bitmap :: surface

definition newService :: service where
  "newService =
     \<lparr> isInitialized = False, canvas_width = 300, canvas_height = 150, ctx = defaultState,
       stateStack = [], bitmap = Blank 300 150 \<rparr>"

text \<open>Assigning \<open>canvas.width\<close> or \<open>canvas.height\<close> clears the bitmap and resets the context.\<close>

definition setCanvasWidth :: "nat \<Rightarrow> service \<Rightarrow> service" where
  "setCanvasWidth w s =
     s\<lparr> canvas_width := w, ctx := defaultState, stateStack := [],
        bitmap := Blank w (canvas_height s) \<rparr>"

definition setCanvasHeight :: "nat \<Rightarrow> service \<Rightarrow> service" where
  "setCanvasHeight h s =
     s\<lparr> canvas_height := h, ctx := defaultState, stateStack := [],
        bitmap := Blank (canvas_width s) h \<rparr>"

definition ctxSave :: "service \<Rightarrow> service" where
  "ctxSave s = s\<lparr> stateStack := ctx s # stateStack s \<rparr>"

definition ctxRestore :: "service \<Rightarrow> service" where
  "ctxRestore s =
     (case stateStack s of [] \<Rightarrow> s | t # ts \<Rightarrow> s\<lparr> ctx := t, stateStack := ts \<rparr>)"

definition compositeOperations :: "string list" where
  "compositeOperations =
     [''source-over'', ''source-in'', ''source-out'', ''source-atop'',
      ''destination-over'', ''destination-in'', ''destination-out'', ''destination-atop'',
      ''lighter'', ''copy'', ''xor'', ''multiply'', ''screen'', ''overlay'', ''darken'',
      ''lighten'', ''color-dodge'', ''color-burn'', ''hard-light'', ''soft-light'',
      ''difference'', ''exclusion'', ''hue'', ''saturation'', ''color'', ''luminosity'']"

text \<open>The two setters ignore a value that is not valid for the attribute.\<close>

definition setGlobalCompositeOperation :: "string jsval \<Rightarrow> service \<Rightarrow> service" where
  "setGlobalCompositeOperation v s =
     (case v of
        Own op \<Rightarrow> if op \<in> set compositeOperations
                  then s\<lparr> ctx := (ctx s)\<lparr> globalCompositeOperation := op \<rparr> \<rparr> else s
      | _ \<Rightarrow> s)"

definition setGlobalAlpha :: "jsnum jsval \<Rightarrow> service \<Rightarrow> service" where
  "setGlobalAlpha v s =
     (case v of
        Own (Fin a) \<Rightarrow> if 0 \<le> a \<and> a \<le> 1
                       then s\<lparr> ctx := (ctx s)\<lparr> globalAlpha := a \<rparr> \<rparr> else s
      | _ \<Rightarrow> s)"

definition setFilter :: "string \<Rightarrow> service \<Rightarrow> service" where
  "setFilter f s = s\<lparr> ctx := (ctx s)\<lparr> filter := f \<rparr> \<rparr>"

definition setFillStyle :: "fillStyle \<Rightarrow> service \<Rightarrow> service" where
  "setFillStyle f s = s\<lparr> ctx := (ctx s)\<lparr> fillStyle := f \<rparr> \<rparr>"

definition paint :: "paintCall \<Rightarrow> service \<Rightarrow> service" where
  "paint c s = s\<lparr> bitmap := Paint (ctx s) c (bitmap s) \<rparr>"

text \<open>
  The check of the image argument of \<open>drawImage\<close>: an image element in the broken state
  is an InvalidStateError; an element without pixel data, or with a dimension of zero, is
  not drawn (\<open>False\<close>).
\<close>

definition checkUsability :: "image \<Rightarrow> jsError + bool" where
  "checkUsability img =
     (case img_state img of
        Broken \<Rightarrow> Inl InvalidStateError
      | Unavailable \<Rightarrow> Inr False
      | Available \<Rightarrow> Inr (0 < img_width img \<and> 0 < img_height img))"

text \<open>
  \<open>drawImage(image, dx, dy)\<close> and \<open>drawImage(image, dx, dy, dw, dh)\<close>: a call with an
  argument that is not finite returns at once; otherwise the image is checked, and an
  image that is not to be drawn makes the call return without painting.
\<close>

definition drawImage :: "image \<Rightarrow> jsnum \<Rightarrow> jsnum \<Rightarrow> service \<Rightarrow> jsError + service" where
  "drawImage img dx dy s =
     (if \<not> (isFinite dx \<and> isFinite dy) then Inr s
      else case checkUsability img of
             Inl e \<Rightarrow> Inl e
           | Inr usable \<Rightarrow> Inr (if usable then paint (DrawImage img dx dy) s else s))"

definition drawImageScaled ::
    "image \<Rightarrow> jsnum \<Rightarrow> jsnum \<Rightarrow> jsnum \<Rightarrow> jsnum \<Rightarrow> service \<Rightarrow> jsError + service" where
  "drawImageScaled img dx dy dw dh s =
     (if \<not> (isFinite dx \<and> isFinite dy \<and> isFinite dw \<and> isFinite dh) then Inr s
      else case checkUsability img of
             Inl e \<Rightarrow> Inl e
           | Inr usable \<Rightarrow> Inr (if usable then paint (DrawImageScaled img dx dy dw dh) s else s))"

text \<open>
  The origin-clean flag of the bitmap, read off its history: a bitmap is new (and clean)
  when the canvas is sized, and stays clean until an image that is not origin-clean is
  painted on it.
\<close>

fun paintedImage :: "paintCall \<Rightarrow> image option" where
  "paintedImage (DrawImage img dx dy) = Some img"
| "paintedImage (DrawImageScaled img dx dy dw dh) = Some img"
| "paintedImage (FillRect x y w h) = None"

fun originClean :: "surface \<Rightarrow> bool" where
  "originClean (Blank w h) = True"
| "originClean (Paint st c s) =
     (originClean s \<and> (case paintedImage c of Some img \<Rightarrow> img_originClean img | None \<Rightarrow> True))"
| "originClean (PutImageData src sx sy sw sh dx dy s) = originClean s"

text \<open>
  \<open>createRadialGradient\<close> throws a TypeError on a non-finite argument and an
  IndexSizeError on a negative radius.
\<close>

definition createRadialGradient ::
    "jsnum \<Rightarrow> jsnum \<Rightarrow> jsnum \<Rightarrow> jsnum \<Rightarrow> jsnum \<Rightarrow> jsnum \<Rightarrow> jsError + radialGradient" where
  "createRadialGradient x0 y0 r0 x1 y1 r1 =
     (case (x0, y0, r0, x1, y1, r1) of
        (Fin a0, Fin b0, Fin c0, Fin a1, Fin b1, Fin c1) \<Rightarrow>
          if c0 < 0 \<or> c1 < 0 then Inl IndexSizeError
          else Inr \<lparr> grad_x0 = a0, grad_y0 = b0, grad_r0 = c0,
                     grad_x1 = a1, grad_y1 = b1, grad_r1 = c1, colorStops = [] \<rparr>
      | _ \<Rightarrow> Inl TypeError)"

definition addColorStop :: "real \<Rightarrow> rgba \<Rightarrow> radialGradient \<Rightarrow> radialGradient" where
  "addColorStop offset c g = g\<lparr> colorStops := colorStops g @ [(offset, c)] \<rparr>"

text \<open>
  The arguments of \<open>getImageData\<close> and \<open>putImageData\<close> are converted to 32-bit
  integers by truncation; a non-finite or out-of-range value is a TypeError. Then a
  rectangle with a zero side is an IndexSizeError, and reading from a bitmap that is not
  origin-clean is a SecurityError.
\<close>

definition toLong :: "jsnum \<Rightarrow> int option" where
  "toLong v =
     (case v of
        Fin r \<Rightarrow> (let t = (if 0 \<le> r then \<lfloor>r\<rfloor> else \<lceil>r\<rceil>)
                  in if - 2147483648 \<le> t \<and> t \<le> 2147483647 then Some t else None)
      | _ \<Rightarrow> None)"

definition getImageData ::
    "jsnum \<Rightarrow> jsnum \<Rightarrow> jsnum \<Rightarrow> jsnum \<Rightarrow> service \<Rightarrow> jsError + imageData" where
  "getImageData sx sy sw sh s =
     (case (toLong sx, toLong sy, toLong sw, toLong sh) of
        (Some x, Some y, Some w, Some h) \<Rightarrow>
          if w = 0 \<or> h = 0 then Inl IndexSizeError
          else if \<not> originClean (bitmap s) then Inl SecurityError
          else Inr (ImageData (bitmap s) x y w h)
      | _ \<Rightarrow> Inl TypeError)"

text \<open>
  \<open>putImageData\<close> copies the block onto the bitmap. It is not a painting call: the
  drawing state (composite operation, opacity, filter) plays no part in it.
\<close>

definition putImageData :: "imageData \<Rightarrow> jsnum \<Rightarrow> jsnum \<Rightarrow> service \<Rightarrow> jsError + service" where
  "putImageData d dx dy s =
     (case d of ImageData src sx sy sw sh \<Rightarrow>
        (case (toLong dx, toLong dy) of
           (Some x, Some y) \<Rightarrow> Inr (s\<lparr> bitmap := PutImageData src sx sy sw sh x y (bitmap s) \<rparr>)
         | _ \<Rightarrow> Inl TypeError))"

text \<open>The painting calls on a surface, oldest first, each with its drawing state.\<close>

fun paints :: "surface \<Rightarrow> (drawState \<times> paintCall) list" where
  "paints (Blank w h) = []"
| "paints (Paint st c s) = paints s @ [(st, c)]"
| "paints (PutImageData src sx sy sw sh dx dy s) = paints s"

fun surfaceWidth :: "surface \<Rightarrow> nat" where
  "surfaceWidth (Blank w h) = w"
| "surfaceWidth (Paint st c s) = surfaceWidth s"
| "surfaceWidth (PutImageData src sx sy sw sh dx dy s) = surfaceWidth s"

fun surfaceHeight :: "surface \<Rightarrow> nat" where
  "surfaceHeight (Blank w h) = h"
| "surfaceHeight (Paint st c s) = surfaceHeight s"
| "surfaceHeight (PutImageData src sx sy sw sh dx dy s) = surfaceHeight s"

definition onSurface :: "surface \<Rightarrow> int \<times> int \<Rightarrow> bool" where
  "onSurface s p =
     (0 \<le> fst p \<and> fst p < int (surfaceWidth s) \<and> 0 \<le> snd p \<and> snd p < int (surfaceHeight s))"

text \<open>
  The pixel of a surface at a point, given the rasteriser \<open>render\<close> of painting calls
  and the value \<open>blank\<close> of a transparent black pixel. A block read by \<open>getImageData\<close>
  holds the pixels of its rectangle (transparent black off the surface), and
  \<open>putImageData\<close> stores them unchanged at the pixels of the surface that the block covers.
\<close>

fun pixelAt ::
    "(drawState \<Rightarrow> paintCall \<Rightarrow> (int \<times> int \<Rightarrow> 'p) \<Rightarrow> int \<times> int \<Rightarrow> 'p) \<Rightarrow> 'p \<Rightarrow>
     surface \<Rightarrow> int \<times> int \<Rightarrow> 'p" where
  "pixelAt render blank (Blank w h) p = blank"
| "pixelAt render blank (Paint st c s) p = render st c (\<lambda>q. pixelAt render blank s q) p"
| "pixelAt render blank (PutImageData src sx sy sw sh dx dy s) p =
     (let i = fst p - dx; j = snd p - dy;
          q = (min sx (sx + sw) + i, min sy (sy + sh) + j)
      in if 0 \<le> i \<and> i < \<bar>sw\<bar> \<and> 0 \<le> j \<and> j < \<bar>sh\<bar> \<and> onSurface s p
         then (if onSurface src q then pixelAt render blank src q else blank)
         else pixelAt render blank s p)"

section \<open>The compositing pipeline (FaceSwapService of the canvas path)\<close>

record targetFace =
  tf_id :: string
  tf_name :: string
  imageUrl :: string
  thumbnailUrl :: string
  expressions :: "expressionType \<Rightarrow> string option"

text \<open>
  What the pipeline asks of its environment: whether the numeric backend becomes ready,
  and what fetching an image URL gives (\<open>None\<close> when the load fails).
\<close>

record env =
  tfReady :: bool
  loadImage :: "string \<Rightarrow> image option"

text \<open>
  The result object. Its error is kept as the exception it reports (the source stores the
  message of the exception, or a fixed text for a failed load).
\<close>

record swapResult =
  success :: bool
  imageData :: "imageData option"
  error :: "jsError option"

definition setupCanvasProcessing :: "service \<Rightarrow> service" where
  "setupCanvasProcessing s =
     s\<lparr> ctx := (ctx s)\<lparr> imageSmoothingEnabled := True, imageSmoothingQuality := ''high'' \<rparr> \<rparr>"

definition initialize :: "env \<Rightarrow> service \<Rightarrow> jsError + service" where
  "initialize e s =
     (if isInitialized s then Inr s
      else if tfReady e then Inr ((setupCanvasProcessing s)\<lparr> isInitialized := True \<rparr>)
      else Inl BackendError)"

text \<open>\<open>a || b || c\<close> on URLs: the empty string is falsy, like a missing entry.\<close>

definition getTargetImageForExpression :: "targetFace \<Rightarrow> expressionType \<Rightarrow> string" where
  "getTargetImageForExpression t ex =
     (case expressions t ex of
        Some u \<Rightarrow> if u \<noteq> [] then u
                 else (case expressions t neutral of
                         Some v \<Rightarrow> if v \<noteq> [] then v else imageUrl t
                       | None \<Rightarrow> imageUrl t)
      | None \<Rightarrow> (case expressions t neutral of
                   Some v \<Rightarrow> if v \<noteq> [] then v else imageUrl t
                 | None \<Rightarrow> imageUrl t))"

text \<open>
  The element \<open>loadImage\<close> resolves with: a new image element, fetched with
  \<open>crossOrigin = 'anonymous'\<close>, whose \<open>load\<close> event has fired; it has pixel data, and
  the pixel data is origin-clean.
\<close>

definition onload :: "image \<Rightarrow> image" where
  "onload img = img\<lparr> img_state := Available, img_originClean := True \<rparr>"

definition blendModes :: "(string \<times> string) list" where
  "blendModes =
     [(''normal'', ''source-over''), (''overlay'', ''overlay''), (''multiply'', ''multiply'')]"

definition getBlendMode :: "string \<Rightarrow> string jsval" where
  "getBlendMode mode = orElse (getProp blendModes mode) ''source-over''"

definition opacityMap :: "(string \<times> jsnum) list" where
  "opacityMap = [(''low'', lit 0.8), (''medium'', lit 0.9), (''high'', lit 0.95)]"

definition getBlendOpacity :: "string \<Rightarrow> jsnum jsval" where
  "getBlendOpacity q = orElse (getProp opacityMap q) (lit 0.9)"

definition applyFeathering :: "boundingBox \<Rightarrow> jsnum \<Rightarrow> service \<Rightarrow> jsError + service" where
  "applyFeathering bb amount s =
     (let centerX = jadd (box_x bb) (jdiv (box_width bb) (Fin 2));
          centerY = jadd (box_y bb) (jdiv (box_height bb) (Fin 2));
          radius = jdiv (jmax (box_width bb) (box_height bb)) (Fin 2)
      in case createRadialGradient centerX centerY (jmul radius (jsub (Fin 1) amount))
                centerX centerY radius of
           Inl e \<Rightarrow> Inl e
         | Inr g0 \<Rightarrow>
             (let gradient = addColorStop 1 (255, 255, 255, 0)
                               (addColorStop 0 (255, 255, 255, 1) g0);
                  s1 = setGlobalCompositeOperation (Own ''destination-in'') s;
                  s2 = setFillStyle (Gradient gradient) s1;
                  s3 = paint (FillRect (jsub (box_x bb) radius) (jsub (box_y bb) radius)
                                (jadd (box_width bb) (jmul radius (Fin 2)))
                                (jadd (box_height bb) (jmul radius (Fin 2)))) s2
              in Inr (setGlobalCompositeOperation (Own ''source-over'') s3)))"

text \<open>Every exception inside \<open>applyColorMatching\<close> is caught and logged there.\<close>

definition applyColorMatching :: "boundingBox \<Rightarrow> service \<Rightarrow> service" where
  "applyColorMatching bb s =
     (case getImageData (box_x bb) (box_y bb) (box_width bb) (box_height bb) s of
        Inl e \<Rightarrow> s
      | Inr d \<Rightarrow>
          (let s1 = setFilter ''contrast(1.05) brightness(1.02) saturate(0.95)'' s
           in case putImageData d (box_x bb) (box_y bb) s1 of
                Inl e \<Rightarrow> s1
              | Inr s2 \<Rightarrow> setFilter ''none'' s2))"

text \<open>
  \<open>performAdvancedSwap\<close> returns the exception that left it, if any, and the service
  state after its \<open>finally\<close> block.
\<close>

definition performAdvancedSwap ::
    "detectedFace \<Rightarrow> image \<Rightarrow> faceSwapConfig \<Rightarrow> service \<Rightarrow> jsError option \<times> service" where
  "performAdvancedSwap face targetImage config s =
     (let bb = boundingBox face;
          s0 = ctxSave s;
          t = calculateFaceTransform bb targetImage (landmarks face)
      in case (if jgt (featherAmount config) (Fin 0)
               then applyFeathering bb (featherAmount config) s0 else Inr s0) of
           Inl e \<Rightarrow> (Some e, ctxRestore s0)
         | Inr s1 \<Rightarrow>
             (let s2 = setGlobalCompositeOperation (getBlendMode (blendMode config)) s1;
                  s3 = setGlobalAlpha (getBlendOpacity (quality config)) s2
              in case drawImageScaled targetImage (translateX t) (translateY t)
                        (jmul (scaleX t) (Fin (real (img_width targetImage))))
                        (jmul (scaleY t) (Fin (real (img_height targetImage)))) s3 of
                   Inl e \<Rightarrow> (Some e, ctxRestore s3)
                 | Inr s4 \<Rightarrow>
                     (let s5 = setGlobalCompositeOperation (Own ''source-over'') s4;
                          s6 = setGlobalAlpha (Own (Fin 1.0)) s5;
                          s7 = (if colorMatch config then applyColorMatching bb s6 else s6)
                      in (None, ctxRestore s7))))"

text \<open>
  \<open>swapFace\<close>: the result object (without its processing time) and the service state
  it leaves. Every exception is caught and reported in the result.
\<close>

definition swapFace ::
    "env \<Rightarrow> image \<Rightarrow> detectedFace \<Rightarrow> targetFace \<Rightarrow> faceSwapConfig \<Rightarrow> service \<Rightarrow>
     swapResult \<times> service" where
  "swapFace e sourceImage face target config s =
     (case initialize e s of
        Inl err \<Rightarrow> (\<lparr> success = False, imageData = None, error = Some err \<rparr>, s)
      | Inr s0 \<Rightarrow>
          (case loadImage e (getTargetImageForExpression target
                  (case expression face of Some ex \<Rightarrow> ex | None \<Rightarrow> neutral)) of
             None \<Rightarrow> (\<lparr> success = False, imageData = None, error = Some LoadError \<rparr>, s0)
           | Some img \<Rightarrow>
               (let targetImage = onload img;
                    s1 = setCanvasWidth (img_width sourceImage) s0;
                    s2 = setCanvasHeight (img_height sourceImage) s1
                in case drawImage sourceImage (Fin 0) (Fin 0) s2 of
                     Inl err \<Rightarrow>
                       (\<lparr> success = False, imageData = None, error = Some err \<rparr>, s2)
                   | Inr s3 \<Rightarrow>
                       (case performAdvancedSwap face targetImage config s3 of
                          (Some err, s4) \<Rightarrow>
                            (\<lparr> success = False, imageData = None, error = Some err \<rparr>, s4)
                        | (None, s4) \<Rightarrow>
                            (case getImageData (Fin 0) (Fin 0) (Fin (real (canvas_width s4)))
                                    (Fin (real (canvas_height s4))) s4 of
                               Inl err \<Rightarrow>
                                 (\<lparr> success = False, imageData = None, error = Some err \<rparr>, s4)
                             | Inr d \<Rightarrow>
                                 (\<lparr> success = True, imageData = Some d, error = None \<rparr>, s4))))))"

definition dispose :: "service \<Rightarrow> service" where
  "dispose s = s\<lparr> isInitialized := False \<rparr>"

text \<open>The states a service object goes through: from construction, by its public methods.\<close>

inductive reachable :: "service \<Rightarrow> bool" where
  reachable_new: "reachable newService"
| reachable_initialize: "reachable s \<Longrightarrow> initialize e s = Inr s' \<Longrightarrow> reachable s'"
| reachable_swapFace:
    "reachable s \<Longrightarrow> reachable (snd (swapFace e sourceImage face target config s))"
| reachable_dispose: "reachable s \<Longrightarrow> reachable (dispose s)"

text \<open>
  The opacity a radial gradient paints at a point, for the gradients the pipeline builds:
  two concentric circles and two stops, at offsets 0 and 1. The colour is that of the first
  stop inside the start circle, that of the last stop outside the end circle, and linearly
  interpolated in between; a gradient whose two circles coincide paints nothing. Other
  gradients are outside this fragment (\<open>None\<close>).
\<close>

definition gradientAlpha :: "radialGradient \<Rightarrow> real \<times> real \<Rightarrow> real option" where
  "gradientAlpha g p =
     (case colorStops g of
        [(o0, (cr0, cg0, cb0, a0)), (o1, (cr1, cg1, cb1, a1))] \<Rightarrow>
          if o0 = 0 \<and> o1 = 1 \<and> grad_x0 g = grad_x1 g \<and> grad_y0 g = grad_y1 g
          then (let d = sqrt ((fst p - grad_x0 g)\<^sup>2 + (snd p - grad_y0 g)\<^sup>2)
                in if grad_r0 g = grad_r1 g then Some 0
                   else (let w = (d - grad_r0 g) / (grad_r1 g - grad_r0 g)
                         in if w \<le> 0 then Some a0
                            else if 1 \<le> w then Some a1
                            else Some (a0 + (a1 - a0) * w)))
          else None
      | _ \<Rightarrow> None)"

section \<open>The whole-frame tint (applyFaceSwapEffect of the simplified path)\<close>

type_synonym byte = "8 word"

text \<open>An \<open>ImageData\<close> object with its byte array (a \<open>Uint8ClampedArray\<close>, RGBA).\<close>

record pixelData =
  pd_width :: nat
  pd_height :: nat
  pd_data :: "byte list"

record tint =
  tint_r :: jsnum
  tint_g :: jsnum
  tint_b :: jsnum

definition transformations :: "(string \<times> tint) list" where
  "transformations =
     [(''einstein'', \<lparr> tint_r = lit 1.1, tint_g = lit 1.0, tint_b = lit 0.9 \<rparr>),
      (''mona-lisa'', \<lparr> tint_r = lit 1.05, tint_g = lit 0.95, tint_b = lit 0.85 \<rparr>),
      (''obama'', \<lparr> tint_r = lit 0.95, tint_g = lit 0.9, tint_b = lit 0.8 \<rparr>)]"

text \<open>
  \<open>transform.r\<close> as a factor of a product: a member of \<open>Object.prototype\<close> has no
  property \<open>r\<close>, \<open>g\<close> or \<open>b\<close>, and a number times \<open>undefined\<close> is NaN.
\<close>

definition factor :: "(tint \<Rightarrow> jsnum) \<Rightarrow> tint jsval \<Rightarrow> jsnum" where
  "factor channel t = (case t of Own f \<Rightarrow> channel f | _ \<Rightarrow> NaN)"

text \<open>Reading past the end of the array gives \<open>undefined\<close>: NaN in a product.\<close>

definition load :: "byte list \<Rightarrow> nat \<Rightarrow> jsnum" where
  "load d i = (if i < length d then Fin (real (unat (d ! i))) else NaN)"

text \<open>
  The conversion of a number stored into a \<open>Uint8ClampedArray\<close>: NaN becomes 0, the value
  is clamped to 0..255 and rounded to the nearest integer, a tie to the even one.
\<close>

definition toUint8Clamp :: "jsnum \<Rightarrow> byte" where
  "toUint8Clamp v =
     (case v of
        NaN \<Rightarrow> 0
      | PInf \<Rightarrow> 255
      | NInf \<Rightarrow> 0
      | Fin r \<Rightarrow> word_of_int (roundHalfEven (min (max r 0) 255)))"

text \<open>A store past the end of a typed array is ignored.\<close>

definition store :: "byte list \<Rightarrow> nat \<Rightarrow> jsnum \<Rightarrow> byte list" where
  "store d i v = (if i < length d then d[i := toUint8Clamp v] else d)"

definition tintStep :: "tint jsval \<Rightarrow> nat \<Rightarrow> byte list \<Rightarrow> byte list" where
  "tintStep t i d =
     (let d1 = store d i (jmin (Fin 255) (jmul (load d i) (factor tint_r t)));
          d2 = store d1 (i + 1) (jmin (Fin 255) (jmul (load d1 (i + 1)) (factor tint_g t)));
          d3 = store d2 (i + 2) (jmin (Fin 255) (jmul (load d2 (i + 2)) (factor tint_b t)))
      in d3)"

function tintLoop :: "tint jsval \<Rightarrow> nat \<Rightarrow> byte list \<Rightarrow> byte list" where
  "tintLoop t i d = (if i < length d then tintLoop t (i + 4) (tintStep t i d) else d)"
  by pat_completeness auto
termination
  by (relation "measure (\<lambda>(t, i, d). length d - i)")
     (auto simp: tintStep_def store_def Let_def)

declare tintLoop.simps [simp del]

definition applyFaceSwapEffect :: "pixelData \<Rightarrow> string \<Rightarrow> pixelData" where
  "applyFaceSwapEffect imgData targetFaceId =
     (let t = orElse (getProp transformations targetFaceId)
                \<lparr> tint_r = Fin 1, tint_g = Fin 1, tint_b = Fin 1 \<rparr>
      in imgData\<lparr> pd_data := tintLoop t 0 (pd_data imgData) \<rparr>)"

section \<open>A worked scenario\<close>

text \<open>
  The default configuration of the application store, and a concrete invocation: a
  640 by 480 frame that is available and origin-clean, a detected region at (50, 50) of
  100 by 100, and a 200 by 200 overlay image that loads.
\<close>

definition defaultConfig :: faceSwapConfig where
  "defaultConfig =
     \<lparr> quality = ''medium'', blendMode = ''normal'', featherAmount = lit 0.5,
       colorMatch = True, realTimeMode = True \<rparr>"

definition scenarioOverlay :: image where
  "scenarioOverlay =
     \<lparr> img_src = ''einstein.jpg'', img_width = 200, img_height = 200,
       img_state = Available, img_originClean = True \<rparr>"

definition scenarioEnv :: env where
  "scenarioEnv = \<lparr> tfReady = True, loadImage = map_of [(''einstein.jpg'', scenarioOverlay)] \<rparr>"

definition scenarioFrame :: image where
  "scenarioFrame =
     \<lparr> img_src = ''frame'', img_width = 640, img_height = 480,
       img_state = Available, img_originClean = True \<rparr>"

definition scenarioFace :: detectedFace where
  "scenarioFace =
     \<lparr> face_id = ''face-1'', landmarks = [],
       boundingBox = \<lparr> box_x = Fin 50, box_y = Fin 50, box_width = Fin 100, box_height = Fin 100 \<rparr>,
       confidence = lit 0.8, expression = None \<rparr>"

definition scenarioTarget :: targetFace where
  "scenarioTarget =
     \<lparr> tf_id = ''einstein'', tf_name = ''Einstein'', imageUrl = ''einstein.jpg'',
       thumbnailUrl = ''einstein-thumb.jpg'', expressions = Map.empty \<rparr>"

section \<open>Rounding to binary64\<close>

subsection \<open>The nearest integer\<close>

lemma roundHalfEven_error: "\<bar>of_int (roundHalfEven q) - q\<bar> \<le> 1 / 2"
  unfolding roundHalfEven_def Let_def by (auto simp: abs_real_def) linarith+

lemma roundHalfEven_of_int [simp]: "roundHalfEven (of_int n) = n"
  by (simp add: roundHalfEven_def)

lemma roundHalfEven_zero [simp]: "roundHalfEven 0 = 0"
  using roundHalfEven_of_int[of 0] by simp

lemma roundHalfEven_le: "q \<le> of_int n \<Longrightarrow> roundHalfEven q \<le> n"
proof -
  assume a: "q \<le> of_int n"
  have "\<lfloor>q\<rfloor> \<le> n" using a by (simp add: floor_le_iff) 
  moreover have "\<lfloor>q\<rfloor> = n \<Longrightarrow> q = of_int n"
    using a by (metis floor_of_int of_int_floor_le order_antisym)
  ultimately show ?thesis
    unfolding roundHalfEven_def Let_def
    by (auto; linarith)
qed

lemma roundHalfEven_ge: "of_int n \<le> q \<Longrightarrow> n \<le> roundHalfEven q"
proof -
  assume a: "of_int n \<le> q"
  have "n \<le> \<lfloor>q\<rfloor>" using a by (simp add: le_floor_iff)
  then show ?thesis
    unfolding roundHalfEven_def Let_def by auto
qed

lemma roundHalfEven_nonneg: "0 \<le> q \<Longrightarrow> 0 \<le> roundHalfEven q"
  using roundHalfEven_ge[of 0 q] by simp

subsection \<open>Binades\<close>

lemma binadeFrom_range: "e \<le> binadeFrom n e a \<and> binadeFrom n e a \<le> e + int n"
proof (induction n arbitrary: e)
  case 0
  show ?case by simp
next
  case (Suc n)
  show ?case using Suc[of "e + 1"] by auto
qed

lemma binadeFrom_lower: "e < binadeFrom n e a \<Longrightarrow> 2 powi (binadeFrom n e a) \<le> a"
proof (induction n arbitrary: e)
  case 0
  then show ?case by simp
next
  case (Suc n)
  show ?case
  proof (cases "a < 2 powi (e + 1)")
    case True
    then show ?thesis using Suc.prems by simp
  next
    case False
    show ?thesis
    proof (cases "e + 1 < binadeFrom n (e + 1) a")
      case True
      then show ?thesis using Suc.IH[of "e + 1"] False by simp
    next
      case F2: False
      then have "binadeFrom n (e + 1) a = e + 1"
        using binadeFrom_range[of "e + 1" n a] by simp
      then show ?thesis using False by simp
    qed
  qed
qed

lemma binadeFrom_upper:
  "binadeFrom n e a < e + int n \<Longrightarrow> a < 2 powi (binadeFrom n e a + 1)"
proof (induction n arbitrary: e)
  case 0
  then show ?case by simp
next
  case (Suc n)
  show ?case
  proof (cases "a < 2 powi (e + 1)")
    case True
    then show ?thesis by simp
  next
    case False
    then show ?thesis using Suc.IH[of "e + 1"] Suc.prems by simp
  qed
qed

lemma binade_range: "- 1022 \<le> binade a" "binade a \<le> 1023"
  using binadeFrom_range[of "- 1022" 2045 a] by (simp_all add: binade_def)

lemma binade_lower: "- 1022 < binade a \<Longrightarrow> 2 powi (binade a) \<le> a"
  unfolding binade_def by (rule binadeFrom_lower)

lemma binade_upper: "binade a < 1023 \<Longrightarrow> a < 2 powi (binade a + 1)"
  unfolding binade_def by (rule binadeFrom_upper) simp

lemma two_powi_mono: "m \<le> n \<Longrightarrow> (2::real) powi m \<le> 2 powi n"
  by (rule power_int_increasing) simp_all

lemma two_powi_pos [simp]: "0 < (2::real) powi n"
  by (simp add: zero_less_power_int)

lemma two_powi_less_cancel: "(2::real) powi m < 2 powi n \<Longrightarrow> m < n"
  using two_powi_mono[of n m] by (cases "m < n") simp_all

lemma binade_eq:
  assumes "- 1022 \<le> e" and "e \<le> 1023"
    and "e = - 1022 \<or> 2 powi e \<le> a"
    and "e = 1023 \<or> a < 2 powi (e + 1)"
  shows "binade a = e"
proof (rule ccontr)
  assume ne: "binade a \<noteq> e"
  show False
  proof (cases "binade a < e")
    case True
    then have "a < 2 powi (binade a + 1)" using binade_upper assms(2) by simp
    also have "\<dots> \<le> 2 powi e" using True by (intro two_powi_mono) simp
    finally have "a < 2 powi e" .
    moreover have "2 powi e \<le> a" using assms(3) True binade_range(1)[of a] by auto
    ultimately show False by simp
  next
    case False
    then have gt: "e < binade a" using ne by simp
    then have "2 powi (binade a) \<le> a" using binade_lower assms(1) by simp
    moreover have "a < 2 powi (e + 1)" using assms(4) gt binade_range(2)[of a] by auto
    moreover have "2 powi (e + 1) \<le> (2::real) powi (binade a)" using gt by (intro two_powi_mono) simp
    ultimately show False by simp
  qed
qed

lemma binade_mono: "a \<le> b \<Longrightarrow> binade a \<le> binade b"
proof (rule ccontr)
  assume ab: "a \<le> b" and "\<not> binade a \<le> binade b"
  then have lt: "binade b < binade a" by simp
  then have "2 powi (binade a) \<le> a" using binade_lower binade_range(1)[of b] by simp
  moreover have "b < 2 powi (binade b + 1)" using binade_upper lt binade_range(2)[of a] by simp
  moreover have "2 powi (binade b + 1) \<le> (2::real) powi (binade a)" using lt by (intro two_powi_mono) simp
  ultimately show False using ab by simp
qed

subsection \<open>Error and exactness of the rounding\<close>

lemma ulp_half_bound:
  assumes "0 \<le> a"
  shows "2 powi (binade a - 52) / 2 \<le> 2 powi (- 53) * a + 2 powi (- 1075)"
proof (cases "binade a = - 1022")
  case True
  have "(2::real) powi (- 1074) / 2 = 2 powi (- 1075)"
    by (simp add: power_int_diff[of 2 "-1074" 1, simplified])
  then show ?thesis using True assms by simp
next
  case False
  then have "2 powi (binade a) \<le> a" using binade_lower binade_range(1)[of a] by simp
  moreover have "(2::real) powi (binade a - 52) / 2 = 2 powi (- 53) * 2 powi (binade a)"
    by (simp add: power_int_diff power_int_minus_divide)
  ultimately show ?thesis
    by (simp add: mult_left_mono add_increasing2)
qed

lemma ulp_le: "(2::real) powi (binade a - 52) \<le> 2 powi 971"
  using binade_range(2)[of a] by (intro two_powi_mono) simp

lemma rounded_facts:
  fixes a :: real
  assumes "0 \<le> a"
  defines "u \<equiv> 2 powi (binade a - 52)"
  defines "m \<equiv> of_int (roundHalfEven (a / u)) * u"
  shows "0 \<le> m" and "\<bar>m - a\<bar> \<le> u / 2"
proof -
  have up: "0 < u" by (simp add: u_def)
  have "0 \<le> a / u" using assms(1) up by simp
  then have "0 \<le> roundHalfEven (a / u)" by (rule roundHalfEven_nonneg)
  then show "0 \<le> m" using up by (simp add: m_def)
  have "\<bar>of_int (roundHalfEven (a / u)) - a / u\<bar> * u \<le> 1 / 2 * u"
    using roundHalfEven_error[of "a / u"] up by (intro mult_right_mono) simp_all
  moreover have "\<bar>of_int (roundHalfEven (a / u)) - a / u\<bar> * u = \<bar>m - a\<bar>"
  proof -
    have "\<bar>of_int (roundHalfEven (a / u)) - a / u\<bar> * u
            = \<bar>(of_int (roundHalfEven (a / u)) - a / u) * u\<bar>"
      using up by (simp add: abs_mult)
    also have "(of_int (roundHalfEven (a / u)) - a / u) * u = m - a"
      using up by (simp add: m_def algebra_simps)
    finally show ?thesis .
  qed
  ultimately show "\<bar>m - a\<bar> \<le> u / 2" by simp
qed

lemma rnd_error:
  assumes "\<bar>x\<bar> \<le> 2 powi 1023"
  obtains y where "rnd x = Fin y"
    and "\<bar>y - x\<bar> \<le> 2 powi (- 53) * \<bar>x\<bar> + 2 powi (- 1075)"
    and "0 \<le> x \<Longrightarrow> 0 \<le> y" and "x \<le> 0 \<Longrightarrow> y \<le> 0"
proof -
  define a where "a = \<bar>x\<bar>"
  define u where "u = (2::real) powi (binade a - 52)"
  define m where "m = of_int (roundHalfEven (a / u)) * u"
  have a0: "0 \<le> a" by (simp add: a_def)
  have m0: "0 \<le> m" and err: "\<bar>m - a\<bar> \<le> u / 2"
    using rounded_facts[OF a0] by (simp_all add: m_def u_def)
  have "m \<le> a + u / 2" using err by linarith
  also have "\<dots> \<le> 2 powi 1023 + 2 powi 971 / 2"
    using assms ulp_le[of a] by (simp add: a_def u_def)
  also have "\<dots> < 2 powi 1024" by simp
  finally have fin: "\<not> 2 powi 1024 \<le> m" by simp
  have r: "rnd x = Fin (if 0 < x then m else - m)"
    using fin by (simp add: rnd_def Let_def a_def[symmetric] u_def[symmetric] m_def[symmetric])
  have b: "u / 2 \<le> 2 powi (- 53) * a + 2 powi (- 1075)"
    unfolding u_def by (rule ulp_half_bound[OF a0])
  show ?thesis
  proof (rule that[of "if 0 < x then m else - m"])
    show "rnd x = Fin (if 0 < x then m else - m)" by (rule r)
    show "\<bar>(if 0 < x then m else - m) - x\<bar> \<le> 2 powi (- 53) * \<bar>x\<bar> + 2 powi (- 1075)"
      using err b by (auto simp: a_def abs_real_def split: if_splits)
    show "0 \<le> x \<Longrightarrow> 0 \<le> (if 0 < x then m else - m)"
    proof -
      assume "0 \<le> x"
      show ?thesis
      proof (cases "0 < x")
        case True then show ?thesis using m0 by simp
      next
        case False
        then have "x = 0" using \<open>0 \<le> x\<close> by simp
        then have "a = 0" by (simp add: a_def)
        then have "m = 0" by (simp add: m_def)
        then show ?thesis by simp
      qed
    qed
    show "x \<le> 0 \<Longrightarrow> (if 0 < x then m else - m) \<le> 0"
      using m0 by simp
  qed
qed

lemma rnd_zero [simp]: "rnd 0 = Fin 0"
  by (simp add: rnd_def Let_def)

lemma rnd_minus: "rnd (- x) = jneg (rnd x)"
proof -
  consider "0 < x" | "x = 0" | "x < 0" by linarith
  then show ?thesis
  proof cases
    case 1 then show ?thesis by (simp add: rnd_def Let_def)
  next
    case 2 then show ?thesis by simp
  next
    case 3 then show ?thesis by (simp add: rnd_def Let_def)
  qed
qed

lemma binade_zero: "binade 0 = - 1022"
  by (rule binade_eq) simp_all

lemma isDouble_finite:
  assumes "isDouble x"
  shows "\<bar>x\<bar> < 2 powi 1024"
    and "\<bar>x\<bar> = of_int (roundHalfEven (\<bar>x\<bar> / 2 powi (binade \<bar>x\<bar> - 52))) * 2 powi (binade \<bar>x\<bar> - 52)"
  using assms unfolding isDouble_def rnd_def Let_def
  by (auto split: if_splits simp: abs_real_def not_le)

lemma two_powi_int:
  assumes "0 \<le> k"
  shows "(2::real) powi k = of_int (2 ^ nat k)"
  using assms by (simp add: power_int_nonneg_exp)

lemma rnd_dyadic:
  assumes "\<bar>m\<bar> < 2 ^ 53" and "- 1074 \<le> k" and "k \<le> 971"
  shows "rnd (of_int m * 2 powi k) = Fin (of_int m * 2 powi k)"
proof -
  define x :: real where "x = of_int m * 2 powi k"
  define a where "a = \<bar>x\<bar>"
  define e where "e = binade a"
  define u where "u = (2::real) powi (e - 52)"
  have a: "a = of_int \<bar>m\<bar> * 2 powi k" by (simp add: a_def x_def abs_mult)
  have alt: "a < 2 powi (53 + k)"
  proof -
    have "of_int \<bar>m\<bar> < (2::real) ^ 53" using assms(1) by (metis of_int_less_numeral_power_cancel_iff)
    then have "of_int \<bar>m\<bar> * 2 powi k < (2::real) ^ 53 * 2 powi k"
      by (intro mult_strict_right_mono) simp_all
    also have "\<dots> = 2 powi (53 + k)" by (simp add: power_int_add)
    finally show ?thesis by (simp add: a)
  qed
  have ek: "e - 52 \<le> k"
  proof (cases "e = - 1022")
    case True then show ?thesis using assms(2) by simp
  next
    case False
    then have "2 powi e \<le> a" using binade_lower[of a] binade_range(1)[of a] by (simp add: e_def)
    then have "(2::real) powi e < 2 powi (53 + k)" using alt by simp
    then have "e < 53 + k" by (rule two_powi_less_cancel)
    then show ?thesis by simp
  qed
  have "a / u = of_int \<bar>m\<bar> * 2 powi (k - (e - 52))"
    by (simp add: a u_def power_int_diff)
  also have "\<dots> = of_int (\<bar>m\<bar> * 2 ^ nat (k - (e - 52)))"
    using ek by (simp add: two_powi_int)
  finally have q: "a / u = of_int (\<bar>m\<bar> * 2 ^ nat (k - (e - 52)))" .
  have mu: "of_int (roundHalfEven (a / u)) * u = a"
  proof -
    have "of_int (roundHalfEven (a / u)) * u = (a / u) * u"
      by (subst q, subst roundHalfEven_of_int, subst q[symmetric]) simp
    then show ?thesis by (simp add: u_def)
  qed
  have "a < 2 powi 1024"
  proof -
    have "(2::real) powi (53 + k) \<le> 2 powi 1024" using assms(3) by (intro two_powi_mono) simp
    then show ?thesis using alt by simp
  qed
  then have "rnd x = Fin (if 0 < x then a else - a)"
    using mu by (simp add: rnd_def Let_def a_def[symmetric] e_def[symmetric] u_def[symmetric])
  then show ?thesis by (simp add: a_def x_def[symmetric])
qed

lemma rnd_of_int: "\<bar>m\<bar> < 2 ^ 53 \<Longrightarrow> rnd (of_int m) = Fin (of_int m)"
  using rnd_dyadic[of m 0] by simp

lemma rnd_of_nat: "n < 2 ^ 53 \<Longrightarrow> rnd (real n) = Fin (real n)"
  using rnd_of_int[of "int n"] by simp

lemma isDouble_of_nat: "n < 2 ^ 53 \<Longrightarrow> isDouble (real n)"
  by (simp add: isDouble_def rnd_of_nat)

lemma rnd_le_double:
  assumes "0 \<le> z" and "z \<le> D" and "isDouble D"
  obtains y where "rnd z = Fin y" and "0 \<le> y" and "y \<le> D"
proof -
  define uz where "uz = (2::real) powi (binade z - 52)"
  define uD where "uD = (2::real) powi (binade D - 52)"
  define nD where "nD = roundHalfEven (D / uD)"
  define m where "m = of_int (roundHalfEven (z / uz)) * uz"
  have D0: "0 \<le> D" using assms(1,2) by simp
  have Dfin: "D < 2 powi 1024" and Drep: "D = of_int nD * uD"
    using isDouble_finite[OF assms(3)] D0 by (simp_all add: nD_def uD_def)
  have le: "binade z \<le> binade D" using assms(2) by (rule binade_mono)
  have "uD = uz * 2 powi (binade D - binade z)"
    by (simp add: uD_def uz_def flip: power_int_add)
  also have "(2::real) powi (binade D - binade z) = of_int (2 ^ nat (binade D - binade z))"
    using le by (simp add: two_powi_int)
  finally have uD: "uD = uz * of_int (2 ^ nat (binade D - binade z))" .
  have uzp: "0 < uz" by (simp add: uz_def)
  have Dq: "D / uz = of_int (nD * 2 ^ nat (binade D - binade z))"
    using uzp by (subst Drep, subst uD) simp
  have "z / uz \<le> D / uz" using assms(2) uzp by (simp add: divide_right_mono)
  then have "roundHalfEven (z / uz) \<le> nD * 2 ^ nat (binade D - binade z)"
    unfolding Dq by (rule roundHalfEven_le)
  then have "(of_int (roundHalfEven (z / uz)) :: real) \<le> of_int (nD * 2 ^ nat (binade D - binade z))"
    by (simp only: of_int_le_iff)
  then have "of_int (roundHalfEven (z / uz)) * uz \<le> of_int (nD * 2 ^ nat (binade D - binade z)) * uz"
    using uzp by (intro mult_right_mono) simp_all
  also have "\<dots> = D" using uzp Dq by (simp add: field_simps)
  finally have mD: "m \<le> D" by (simp add: m_def)
  have m0: "0 \<le> m" using rounded_facts(1)[OF assms(1)] by (simp add: m_def uz_def)
  have "\<not> 2 powi 1024 \<le> m" using mD Dfin by simp
  then have r: "rnd z = Fin (if 0 < z then m else - m)"
    using assms(1) by (simp add: rnd_def Let_def m_def uz_def)
  show ?thesis
  proof (cases "0 < z")
    case True
    then show ?thesis using that[of m] r m0 mD by simp
  next
    case False
    then have "z = 0" using assms(1) by simp
    then show ?thesis using that[of 0] D0 by simp
  qed
qed

lemma binade_two_powi:
  assumes "- 1022 \<le> e" and "e \<le> 1023"
  shows "binade (2 powi e) = e"
  by (rule binade_eq) (use assms in \<open>simp_all add: power_int_strict_increasing\<close>)

lemma rnd_exactI:
  assumes "\<bar>x\<bar> = of_int n * 2 powi (binade \<bar>x\<bar> - 52)" and "\<bar>x\<bar> < 2 powi 1024"
  shows "rnd x = Fin x"
proof -
  define u where "u = (2::real) powi (binade \<bar>x\<bar> - 52)"
  have up: "0 < u" by (simp add: u_def)
  have "\<bar>x\<bar> / u = of_int n" using assms(1) up by (simp add: u_def[symmetric])
  then have "roundHalfEven (\<bar>x\<bar> / u) = n" by (simp only: roundHalfEven_of_int)
  then have m: "of_int (roundHalfEven (\<bar>x\<bar> / u)) * u = \<bar>x\<bar>"
    using assms(1) by (simp add: u_def[symmetric])
  have "rnd x = (if 2 powi 1024 \<le> \<bar>x\<bar> then (if 0 < x then PInf else NInf)
                 else Fin (if 0 < x then \<bar>x\<bar> else - \<bar>x\<bar>))"
    unfolding rnd_def Let_def u_def[symmetric] m ..
  then show ?thesis using assms(2) by (simp add: abs_real_def)
qed

lemma rnd_half:
  assumes "isDouble z" and "2 powi (- 1021) \<le> \<bar>z\<bar>"
  shows "rnd (z / 2) = Fin (z / 2)"
proof -
  define a where "a = \<bar>z\<bar>"
  define e where "e = binade a"
  define u where "u = (2::real) powi (e - 52)"
  define n where "n = roundHalfEven (a / u)"
  have fin: "a < 2 powi 1024" and rep: "a = of_int n * u"
    using isDouble_finite[OF assms(1)] by (simp_all add: a_def e_def u_def n_def)
  have "binade ((2::real) powi (- 1021)) = - 1021"
    by (rule binade_two_powi) simp_all
  moreover have "binade (2 powi (- 1021)) \<le> binade a"
    using assms(2) unfolding a_def by (rule binade_mono)
  ultimately have e1: "- 1021 \<le> e" unfolding e_def by (simp only:)
  have e2: "e \<le> 1023" using binade_range(2)[of a] by (simp add: e_def)
  have lo: "2 powi e \<le> a" using binade_lower[of a] e1 by (simp add: e_def)
  have hi: "a < 2 powi (e + 1)"
  proof (cases "e = 1023")
    case True then show ?thesis using fin by simp
  next
    case False then show ?thesis using binade_upper[of a] e2 by (simp add: e_def)
  qed
  have b: "binade (a / 2) = e - 1"
  proof (rule binade_eq)
    show "- 1022 \<le> e - 1" using e1 by simp
    show "e - 1 \<le> 1023" using e2 by simp
    have "(2::real) powi (e - 1) = 2 powi e / 2" by (simp add: power_int_diff)
    then show "e - 1 = - 1022 \<or> 2 powi (e - 1) \<le> a / 2" using lo by simp
    have "(2::real) powi (e - 1 + 1) = 2 powi (e + 1) / 2" by (simp add: power_int_add)
    then show "e - 1 = 1023 \<or> a / 2 < 2 powi (e - 1 + 1)" using hi by simp
  qed
  have u': "(2::real) powi (e - 1 - 52) = u / 2" by (simp add: u_def power_int_diff)
  have up: "0 < u" by (simp add: u_def)
  have "\<bar>z / 2\<bar> = of_int n * 2 powi (binade \<bar>z / 2\<bar> - 52)"
    using b rep by (simp only: abs_divide abs_numeral a_def[symmetric] u')
  moreover have "\<bar>z / 2\<bar> < 2 powi 1024" using fin by (simp add: a_def)
  ultimately show ?thesis by (rule rnd_exactI)
qed

lemma isDouble_half: "isDouble z \<Longrightarrow> 2 powi (- 1021) \<le> \<bar>z\<bar> \<Longrightarrow> isDouble (z / 2)"
  by (simp add: isDouble_def rnd_half[unfolded isDouble_def])

text \<open>The rounding of a positive value whose binade is known.\<close>

lemma rnd_at:
  assumes "0 < x" and "- 1022 \<le> e" and "e \<le> 1023"
    and "e = - 1022 \<or> 2 powi e \<le> x"
    and "e = 1023 \<or> x < 2 powi (e + 1)"
  shows "rnd x =
     (if (2::real) powi 1024 \<le> of_int (roundHalfEven (x / 2 powi (e - 52))) * 2 powi (e - 52)
      then PInf
      else Fin (of_int (roundHalfEven (x / 2 powi (e - 52))) * 2 powi (e - 52)))"
proof -
  have "binade \<bar>x\<bar> = e" using assms by (intro binade_eq) simp_all
  then show ?thesis using assms(1) by (simp add: rnd_def Let_def)
qed

subsection \<open>Values of the literals and of small numbers\<close>

lemma roundHalfEven_numeral [simp]: "roundHalfEven (numeral w) = numeral w"
  using roundHalfEven_of_int[of "numeral w"] by simp

lemma roundHalfEven_one [simp]: "roundHalfEven 1 = 1"
  using roundHalfEven_of_int[of 1] by simp

lemma rnd_numeral [simp]: "(numeral w :: nat) < 2 ^ 53 \<Longrightarrow> rnd (numeral w) = Fin (numeral w)"
  using rnd_of_nat[of "numeral w"] by simp

lemma rnd_one [simp]: "rnd 1 = Fin 1"
  using rnd_of_nat[of 1] by simp

lemma rnd_neg [simp]: "rnd (- x) = jneg (rnd x)"
  by (rule rnd_minus)

lemma rnd_one_half [simp]: "rnd (1 / 2) = Fin (1 / 2)"
  using rnd_dyadic[of 1 "- 1"] by simp

lemma lit_integer [simp]: "lit 0 = Fin 0" "lit 1 = Fin 1" "lit (1 / 2) = Fin (1 / 2)"
  by (simp_all add: lit_def)

lemma lit_03: "lit 0.3 = Fin (5404319552844595 / 2 ^ 54)"
  unfolding lit_def by (subst rnd_at[where e = "- 2"]) (simp_all add: roundHalfEven_def)

lemma lit_08: "lit 0.8 = Fin (3602879701896397 / 2 ^ 52)"
  unfolding lit_def by (subst rnd_at[where e = "- 1"]) (simp_all add: roundHalfEven_def)

lemma lit_085: "lit 0.85 = Fin (7656119366529843 / 2 ^ 53)"
  unfolding lit_def by (subst rnd_at[where e = "- 1"]) (simp_all add: roundHalfEven_def)

lemma lit_09: "lit 0.9 = Fin (8106479329266893 / 2 ^ 53)"
  unfolding lit_def by (subst rnd_at[where e = "- 1"]) (simp_all add: roundHalfEven_def)

lemma lit_095: "lit 0.95 = Fin (4278419646001971 / 2 ^ 52)"
  unfolding lit_def by (subst rnd_at[where e = "- 1"]) (simp_all add: roundHalfEven_def)

lemma lit_105: "lit 1.05 = Fin (4728779608739021 / 2 ^ 52)"
  unfolding lit_def by (subst rnd_at[where e = 0]) (simp_all add: roundHalfEven_def)

lemma lit_11: "lit 1.1 = Fin (2476979795053773 / 2 ^ 51)"
  unfolding lit_def by (subst rnd_at[where e = 0]) (simp_all add: roundHalfEven_def)

lemmas lit_values = lit_03 [simplified] lit_08 [simplified] lit_085 [simplified] lit_09 [simplified]
  lit_095 [simplified] lit_105 [simplified] lit_11 [simplified]

lemmas scenario_defs = defaultConfig_def scenarioOverlay_def scenarioEnv_def scenarioFrame_def
  scenarioFace_def scenarioTarget_def

lemmas surface_defs = swapFace_def initialize_def setupCanvasProcessing_def
  getTargetImageForExpression_def setCanvasWidth_def setCanvasHeight_def paint_def
  drawImage_def drawImageScaled_def checkUsability_def onload_def
  performAdvancedSwap_def ctxSave_def ctxRestore_def calculateFaceTransform_def
  applyFeathering_def createRadialGradient_def addColorStop_def
  setFillStyle_def setFilter_def
  applyColorMatching_def getImageData_def putImageData_def toLong_def
  jsub_def jgt_def jmin_def jmax_def
  newService_def defaultState_def Let_def lit_values

lemmas pipeline_defs = surface_defs
  setGlobalCompositeOperation_def setGlobalAlpha_def
  getBlendMode_def getBlendOpacity_def getProp_def orElse_def blendModes_def opacityMap_def
  compositeOperations_def objectPrototypeKeys_def

section \<open>Properties of the whole-frame tint\<close>

lemma length_store [simp]: "length (store d i v) = length d"
  by (simp add: store_def)

lemma nth_store: "store d i v ! j = (if j = i \<and> i < length d then toUint8Clamp v else d ! j)"
  by (simp add: store_def)

lemma length_tintStep [simp]: "length (tintStep t i d) = length d"
  by (simp add: tintStep_def Let_def)

lemma tintStep_other:
  "j \<noteq> i \<Longrightarrow> j \<noteq> i + 1 \<Longrightarrow> j \<noteq> i + 2 \<Longrightarrow> tintStep t i d ! j = d ! j"
  by (simp add: tintStep_def Let_def nth_store)

lemma length_tintLoop [simp]: "length (tintLoop t i d) = length d"
proof (induction t i d rule: tintLoop.induct)
  case (1 t i d)
  show ?case
  proof (cases "i < length d")
    case True
    with 1 show ?thesis by (subst tintLoop.simps) simp
  next
    case False
    then show ?thesis by (subst tintLoop.simps) simp
  qed
qed

lemma tintLoop_below: "j < i \<Longrightarrow> tintLoop t i d ! j = d ! j"
proof (induction t i d rule: tintLoop.induct)
  case (1 t i d)
  show ?case
  proof (cases "i < length d")
    case True
    have "tintLoop t i d ! j = tintLoop t (i + 4) (tintStep t i d) ! j"
      using True by (subst tintLoop.simps) simp
    also have "\<dots> = tintStep t i d ! j"
      using 1 True by simp
    also have "\<dots> = d ! j"
      using 1(2) by (simp add: tintStep_other)
    finally show ?thesis .
  next
    case False
    then show ?thesis by (subst tintLoop.simps) simp
  qed
qed

lemma tintLoop_alpha:
  "i mod 4 = 0 \<Longrightarrow> j mod 4 = 3 \<Longrightarrow> tintLoop t i d ! j = d ! j"
proof (induction t i d rule: tintLoop.induct)
  case (1 t i d)
  show ?case
  proof (cases "i < length d")
    case True
    have ne: "j \<noteq> i" "j \<noteq> i + 1" "j \<noteq> i + 2"
      using 1(2,3) by presburger+
    have "tintLoop t i d ! j = tintLoop t (i + 4) (tintStep t i d) ! j"
      using True by (subst tintLoop.simps) simp
    also have "\<dots> = tintStep t i d ! j"
      using 1 True by simp
    also have "\<dots> = d ! j"
      using ne by (simp add: tintStep_other)
    finally show ?thesis .
  next
    case False
    then show ?thesis by (subst tintLoop.simps) simp
  qed
qed

lemma tintStep_channels:
  assumes "i < length d"
  shows "tintStep t i d ! i = toUint8Clamp (jmin (Fin 255) (jmul (Fin (real (unat (d ! i)))) (factor tint_r t)))"
    and "i + 1 < length d \<Longrightarrow> tintStep t i d ! (i + 1) =
           toUint8Clamp (jmin (Fin 255) (jmul (Fin (real (unat (d ! (i + 1))))) (factor tint_g t)))"
    and "i + 2 < length d \<Longrightarrow> tintStep t i d ! (i + 2) =
           toUint8Clamp (jmin (Fin 255) (jmul (Fin (real (unat (d ! (i + 2))))) (factor tint_b t)))"
  using assms by (simp_all add: tintStep_def Let_def nth_store load_def)

lemma tintLoop_channel:
  assumes "i mod 4 = 0" and "i \<le> j" and "j < length d"
  shows "tintLoop t i d ! j =
     (if j mod 4 = 3 then d ! j
      else toUint8Clamp (jmin (Fin 255) (jmul (Fin (real (unat (d ! j))))
             (factor (if j mod 4 = 0 then tint_r else if j mod 4 = 1 then tint_g else tint_b) t))))"
  using assms
proof (induction t i d rule: tintLoop.induct)
  case (1 t i d)
  have il: "i < length d" using 1 by simp
  have unf: "tintLoop t i d ! j = tintLoop t (i + 4) (tintStep t i d) ! j"
    using il by (subst tintLoop.simps) simp
  show ?case
  proof (cases "j < i + 4")
    case True
    have a: "tintLoop t (i + 4) (tintStep t i d) ! j = tintStep t i d ! j"
      using True by (simp add: tintLoop_below)
    consider "j = i" | "j = i + 1" | "j = i + 2" | "j = i + 3"
      using True 1(3) by linarith
    then show ?thesis
    proof cases
      case 1
      then have "j mod 4 = 0" using \<open>i mod 4 = 0\<close> by simp
      then show ?thesis using 1 unf a tintStep_channels(1)[OF il, of t] by simp
    next
      case 2
      then have m: "j mod 4 = 1" using \<open>i mod 4 = 0\<close> by presburger
      have "i + 1 < length d" using 2 \<open>j < length d\<close> by simp
      then show ?thesis using 2 m unf a tintStep_channels(2)[OF il, of t] by simp
    next
      case 3
      then have m: "j mod 4 = 2" using \<open>i mod 4 = 0\<close> by presburger
      have "i + 2 < length d" using 3 \<open>j < length d\<close> by simp
      then show ?thesis using 3 m unf a tintStep_channels(3)[OF il, of t] by simp
    next
      case 4
      then have m: "j mod 4 = 3" using \<open>i mod 4 = 0\<close> by presburger
      then show ?thesis using 4 unf a by (simp add: tintStep_other)
    qed
  next
    case False
    have ne: "j \<noteq> i" "j \<noteq> i + 1" "j \<noteq> i + 2" using False by simp_all
    have m4: "(i + 4) mod 4 = 0" using \<open>i mod 4 = 0\<close> by presburger
    have le4: "i + 4 \<le> j" using False by simp
    have lt4: "j < length (tintStep t i d)" using \<open>j < length d\<close> by simp
    note "1.IH"[OF il m4 le4 lt4]
    then show ?thesis using unf ne by (simp add: tintStep_other)
  qed
qed

text \<open>
  The tint of a known identity: every colour byte is the clamped, rounded product with
  the factor of its channel.
\<close>

lemma applyFaceSwapEffect_einstein:
  assumes "j < length (pd_data d)"
  shows "pd_data (applyFaceSwapEffect d ''einstein'') ! j =
     (if j mod 4 = 3 then pd_data d ! j
      else toUint8Clamp (jmin (Fin 255) (jmul (Fin (real (unat (pd_data d ! j))))
             (if j mod 4 = 0 then lit 1.1 else if j mod 4 = 1 then lit 1.0 else lit 0.9))))"
  using tintLoop_channel[of 0 j "pd_data d"
          "Own \<lparr> tint_r = lit 1.1, tint_g = lit 1.0, tint_b = lit 0.9 \<rparr>"] assms
  by (simp add: applyFaceSwapEffect_def getProp_def orElse_def transformations_def factor_def)

text \<open>
  The products of the bytes 200 and 250 with the factors 1.1 and 0.9, as binary64 values:
  200 * 1.1 is the number next above 220, and the other three are 180, 275 and 225.
\<close>

lemma einstein_products:
  "jmul (Fin 200) (lit 1.1) = Fin (7740561859543041 / 2 ^ 45)"
  "jmul (Fin 200) (lit 0.9) = Fin 180"
  "jmul (Fin 250) (lit 1.1) = Fin 275"
  "jmul (Fin 250) (lit 0.9) = Fin 225"
proof -
  show "jmul (Fin 200) (lit 1.1) = Fin (7740561859543041 / 2 ^ 45)"
    by (simp add: lit_values, subst rnd_at[where e = 7], simp_all add: roundHalfEven_def)
  show "jmul (Fin 200) (lit 0.9) = Fin 180"
    by (simp add: lit_values, subst rnd_at[where e = 7], simp_all add: roundHalfEven_def)
  show "jmul (Fin 250) (lit 1.1) = Fin 275"
    by (simp add: lit_values, subst rnd_at[where e = 8], simp_all add: roundHalfEven_def)
  show "jmul (Fin 250) (lit 0.9) = Fin 225"
    by (simp add: lit_values, subst rnd_at[where e = 7], simp_all add: roundHalfEven_def)
qed

lemma applyFaceSwapEffect_einstein_pixels:
  "pd_data (applyFaceSwapEffect
      \<lparr> pd_width = 2, pd_height = 1, pd_data = [200, 200, 200, 255, 250, 250, 250, 255] \<rparr>
      ''einstein'') = [220, 200, 180, 255, 255, 250, 225, 255]"
  by (simp add: applyFaceSwapEffect_def getProp_def orElse_def transformations_def
        tintLoop.simps[of _ 0] tintLoop.simps[of _ 4] tintLoop.simps[of _ 8]
        tintStep_def store_def load_def factor_def einstein_products jmin_def toUint8Clamp_def
        roundHalfEven_def Let_def)

text \<open>
  The byte 55 shows the rounding of the product: 55 * 1.1 is the binary64 value next above
  60.5, so the byte stored is 61, where the exact product with eleven tenths, a tie,
  would give 60.
\<close>

lemma applyFaceSwapEffect_einstein_rounding:
  "pd_data (applyFaceSwapEffect
      \<lparr> pd_width = 1, pd_height = 1, pd_data = [55, 55, 55, 255] \<rparr> ''einstein'')
   = [61, 55, 50, 255]"
proof -
  have "jmul (Fin 55) (lit 1.1) = Fin (8514618045497345 / 2 ^ 47)"
    by (simp add: lit_values, subst rnd_at[where e = 5], simp_all add: roundHalfEven_def)
  moreover have "jmul (Fin 55) (lit 0.9) = Fin (99 / 2)"
    by (simp add: lit_values, subst rnd_at[where e = 5], simp_all add: roundHalfEven_def)
  ultimately show ?thesis
    by (simp add: applyFaceSwapEffect_def getProp_def orElse_def transformations_def
        tintLoop.simps[of _ 0] tintLoop.simps[of _ 4]
        tintStep_def store_def load_def factor_def jmin_def toUint8Clamp_def
        roundHalfEven_def Let_def)
qed

lemma toUint8Clamp_byte:
  "toUint8Clamp (jmin (Fin 255) (jmul (Fin (real (unat (b :: byte)))) (Fin 1))) = b"
proof -
  define n where "n = unat b"
  have b: "n < 256"
    using unsigned_less[of b, where 'a = nat] by (simp add: n_def)
  then have r: "rnd (real n) = Fin (real n)"
    by (intro rnd_of_nat) simp
  have h: "roundHalfEven (real n) = int n"
    using roundHalfEven_of_int[of "int n"] by simp
  have w: "word_of_int (int n) = b" by (simp add: n_def)
  have e: "n = 255" if "\<not> n < 255" using that b by simp
  have "toUint8Clamp (jmin (Fin 255) (jmul (Fin (real n)) (Fin 1))) = word_of_int (int n)"
    using b by (auto simp: r h e jmin_def toUint8Clamp_def min_def max_def)
  then show ?thesis unfolding w unfolding n_def .
qed

lemma applyFaceSwapEffect_unlisted:
  assumes "map_of transformations tid = None" and "tid \<notin> set objectPrototypeKeys"
    and "j < length (pd_data d)" and "j mod 4 \<noteq> 3"
  shows "pd_data (applyFaceSwapEffect d tid) ! j = pd_data d ! j"
proof -
  have f: "factor c (Own \<lparr> tint_r = Fin 1, tint_g = Fin 1, tint_b = Fin 1 \<rparr>) = Fin 1"
    if "c = tint_r \<or> c = tint_g \<or> c = tint_b" for c
    using that by (auto simp: factor_def)
  have "pd_data (applyFaceSwapEffect d tid) ! j =
        tintLoop (Own \<lparr> tint_r = Fin 1, tint_g = Fin 1, tint_b = Fin 1 \<rparr>) 0 (pd_data d) ! j"
    using assms(1,2) by (simp add: applyFaceSwapEffect_def getProp_def orElse_def)
  also have "\<dots> = toUint8Clamp (jmin (Fin 255) (jmul (Fin (real (unat (pd_data d ! j)))) (Fin 1)))"
    using tintLoop_channel[of 0 j "pd_data d" "Own \<lparr> tint_r = Fin 1, tint_g = Fin 1, tint_b = Fin 1 \<rparr>"]
      assms(3,4)
    by (simp only: f simp_thms if_False if_True mod_0 le0 split: if_splits)
  also have "\<dots> = pd_data d ! j" by (rule toUint8Clamp_byte)
  finally show ?thesis .
qed

text \<open>
  C6, at the identity id \<open>constructor\<close>: the id is not in the table, yet the lookup
  yields the inherited member of \<open>Object.prototype\<close> instead of the default factors, the
  products are NaN, and the colour bytes of the pixel (200,200,200) become 0.
\<close>

theorem applyFaceSwapEffect_inherited_key:
  "pd_data (applyFaceSwapEffect
      \<lparr> pd_width = 1, pd_height = 1, pd_data = [200, 200, 200, 255] \<rparr> ''constructor'')
   = [0, 0, 0, 255]"
  by (simp add: applyFaceSwapEffect_def getProp_def orElse_def transformations_def
        objectPrototypeKeys_def tintLoop.simps[of _ 0] tintLoop.simps[of _ 4]
        tintStep_def store_def load_def factor_def jmin_def toUint8Clamp_def Let_def)

text \<open>
  C10. For every pixel buffer and every identity id, the tint leaves the width, the
  height and the length of the buffer unchanged, and leaves the alpha byte of every
  pixel unchanged.
\<close>

theorem applyFaceSwapEffect_keeps_alpha:
  "pd_width (applyFaceSwapEffect d tid) = pd_width d \<and>
   pd_height (applyFaceSwapEffect d tid) = pd_height d \<and>
   length (pd_data (applyFaceSwapEffect d tid)) = length (pd_data d) \<and>
   (4 * p + 3 < length (pd_data d) \<longrightarrow>
      pd_data (applyFaceSwapEffect d tid) ! (4 * p + 3) = pd_data d ! (4 * p + 3))"
proof -
  have "(4 * p + 3) mod 4 = 3" by presburger
  then show ?thesis
    by (simp add: applyFaceSwapEffect_def Let_def tintLoop_alpha)
qed

theorem applyFaceSwapEffect_keeps_alpha_witness:
  "4 * 1 + 3 < length [10, 20, 30, 40, 50, 60, 70, 80 :: byte] \<and>
   pd_data (applyFaceSwapEffect
      \<lparr> pd_width = 2, pd_height = 1, pd_data = [10, 20, 30, 40, 50, 60, 70, 80] \<rparr>
      ''obama'') ! (4 * 1 + 3) = 80"
  using applyFaceSwapEffect_keeps_alpha[of
      "\<lparr> pd_width = 2, pd_height = 1, pd_data = [10, 20, 30, 40, 50, 60, 70, 80] \<rparr>" "''obama''" 1]
  by simp

section \<open>Properties of the transform solver\<close>

text \<open>
  C9. The landmark list does not affect the transform: for a fixed region and overlay
  image the solver returns the same scales and translation for any two landmark lists,
  and so does the compositing step that calls it with the landmarks of the detected face.
\<close>

theorem landmarks_do_not_affect_transform:
  "calculateFaceTransform bb img l1 = calculateFaceTransform bb img l2 \<and>
   performAdvancedSwap (face\<lparr> landmarks := l1 \<rparr>) img config s =
   performAdvancedSwap (face\<lparr> landmarks := l2 \<rparr>) img config s"
  by (simp add: calculateFaceTransform_def performAdvancedSwap_def)

section \<open>Frame lemmas of the context operations\<close>

lemma setGlobalCompositeOperation_frame [simp]:
  "isInitialized (setGlobalCompositeOperation v s) = isInitialized s"
  "canvas_width (setGlobalCompositeOperation v s) = canvas_width s"
  "canvas_height (setGlobalCompositeOperation v s) = canvas_height s"
  "stateStack (setGlobalCompositeOperation v s) = stateStack s"
  "bitmap (setGlobalCompositeOperation v s) = bitmap s"
  by (simp_all add: setGlobalCompositeOperation_def split: jsval.splits)

lemma setGlobalAlpha_frame [simp]:
  "isInitialized (setGlobalAlpha a s) = isInitialized s"
  "canvas_width (setGlobalAlpha a s) = canvas_width s"
  "canvas_height (setGlobalAlpha a s) = canvas_height s"
  "stateStack (setGlobalAlpha a s) = stateStack s"
  "bitmap (setGlobalAlpha a s) = bitmap s"
  by (simp_all add: setGlobalAlpha_def split: jsval.splits jsnum.splits)

lemma setFilter_frame [simp]:
  "isInitialized (setFilter f s) = isInitialized s"
  "canvas_width (setFilter f s) = canvas_width s"
  "canvas_height (setFilter f s) = canvas_height s"
  "stateStack (setFilter f s) = stateStack s"
  "bitmap (setFilter f s) = bitmap s"
  by (simp_all add: setFilter_def)

lemma setFillStyle_frame [simp]:
  "isInitialized (setFillStyle f s) = isInitialized s"
  "canvas_width (setFillStyle f s) = canvas_width s"
  "canvas_height (setFillStyle f s) = canvas_height s"
  "stateStack (setFillStyle f s) = stateStack s"
  "bitmap (setFillStyle f s) = bitmap s"
  by (simp_all add: setFillStyle_def)

lemma paint_frame [simp]:
  "isInitialized (paint c s) = isInitialized s"
  "canvas_width (paint c s) = canvas_width s"
  "canvas_height (paint c s) = canvas_height s"
  "stateStack (paint c s) = stateStack s"
  "ctx (paint c s) = ctx s"
  "bitmap (paint c s) = Paint (ctx s) c (bitmap s)"
  by (simp_all add: paint_def)

lemma drawImage_frame:
  assumes "drawImage img dx dy s = Inr s'"
  shows "isInitialized s' = isInitialized s" and "canvas_width s' = canvas_width s"
    and "canvas_height s' = canvas_height s" and "stateStack s' = stateStack s"
    and "ctx s' = ctx s"
  using assms by (auto simp: drawImage_def split: if_splits sum.splits)

lemma drawImageScaled_frame:
  assumes "drawImageScaled img dx dy dw dh s = Inr s'"
  shows "isInitialized s' = isInitialized s" and "canvas_width s' = canvas_width s"
    and "canvas_height s' = canvas_height s" and "stateStack s' = stateStack s"
    and "ctx s' = ctx s"
  using assms by (auto simp: drawImageScaled_def split: if_splits sum.splits)

text \<open>A call of \<open>drawImage\<close> that returns has painted the image, or nothing.\<close>

lemma drawImageScaled_bitmap:
  assumes "drawImageScaled img dx dy dw dh s = Inr s'"
  shows "bitmap s' = (if isFinite dx \<and> isFinite dy \<and> isFinite dw \<and> isFinite dh \<and>
                         checkUsability img = Inr True
                      then Paint (ctx s) (DrawImageScaled img dx dy dw dh) (bitmap s)
                      else bitmap s)"
  using assms by (auto simp: drawImageScaled_def split: if_splits sum.splits)

lemma applyFeathering_frame:
  assumes "applyFeathering bb a s = Inr s'"
  shows "isInitialized s' = isInitialized s" and "canvas_width s' = canvas_width s"
    and "canvas_height s' = canvas_height s" and "stateStack s' = stateStack s"
  using assms
  by (simp_all add: applyFeathering_def Let_def split: sum.splits) auto

lemma applyColorMatching_frame [simp]:
  "isInitialized (applyColorMatching bb s) = isInitialized s"
  "canvas_width (applyColorMatching bb s) = canvas_width s"
  "canvas_height (applyColorMatching bb s) = canvas_height s"
  "stateStack (applyColorMatching bb s) = stateStack s"
  by (simp_all add: applyColorMatching_def getImageData_def putImageData_def Let_def
        split: sum.splits option.splits imageData.splits prod.splits)

lemma ctxRestore_pop:
  "stateStack s' = t # ts \<Longrightarrow> ctxRestore s' = s'\<lparr> ctx := t, stateStack := ts \<rparr>"
  by (simp add: ctxRestore_def)

lemma ctxSave_simps [simp]:
  "stateStack (ctxSave s) = ctx s # stateStack s"
  "ctx (ctxSave s) = ctx s"
  "bitmap (ctxSave s) = bitmap s"
  "isInitialized (ctxSave s) = isInitialized s"
  "canvas_width (ctxSave s) = canvas_width s"
  "canvas_height (ctxSave s) = canvas_height s"
  by (simp_all add: ctxSave_def)

text \<open>The three ways through \<open>performAdvancedSwap\<close>.\<close>

lemma performAdvancedSwap_cases:
  obtains
    (thrown) e where "jgt (featherAmount cfg) (Fin 0)"
      and "applyFeathering (boundingBox face) (featherAmount cfg) (ctxSave s) = Inl e"
      and "performAdvancedSwap face img cfg s = (Some e, ctxRestore (ctxSave s))"
  | (refused) s1 s3 e where
      "if jgt (featherAmount cfg) (Fin 0)
       then applyFeathering (boundingBox face) (featherAmount cfg) (ctxSave s) = Inr s1
       else s1 = ctxSave s"
      and "s3 = setGlobalAlpha (getBlendOpacity (quality cfg))
                  (setGlobalCompositeOperation (getBlendMode (blendMode cfg)) s1)"
      and "checkUsability img = Inl e"
      and "performAdvancedSwap face img cfg s = (Some e, ctxRestore s3)"
  | (drawn) s1 s3 s4 s7 where
      "if jgt (featherAmount cfg) (Fin 0)
       then applyFeathering (boundingBox face) (featherAmount cfg) (ctxSave s) = Inr s1
       else s1 = ctxSave s"
      and "s3 = setGlobalAlpha (getBlendOpacity (quality cfg))
                  (setGlobalCompositeOperation (getBlendMode (blendMode cfg)) s1)"
      and "drawImageScaled img
             (translateX (calculateFaceTransform (boundingBox face) img (landmarks face)))
             (translateY (calculateFaceTransform (boundingBox face) img (landmarks face)))
             (jmul (scaleX (calculateFaceTransform (boundingBox face) img (landmarks face)))
                (Fin (real (img_width img))))
             (jmul (scaleY (calculateFaceTransform (boundingBox face) img (landmarks face)))
                (Fin (real (img_height img)))) s3 = Inr s4"
      and "s7 = (let s5 = setGlobalCompositeOperation (Own ''source-over'') s4;
                     s6 = setGlobalAlpha (Own (Fin 1.0)) s5
                 in if colorMatch cfg then applyColorMatching (boundingBox face) s6 else s6)"
      and "performAdvancedSwap face img cfg s = (None, ctxRestore s7)"
proof -
  define t where "t = calculateFaceTransform (boundingBox face) img (landmarks face)"
  have after: thesis
    if s1: "if jgt (featherAmount cfg) (Fin 0)
            then applyFeathering (boundingBox face) (featherAmount cfg) (ctxSave s) = Inr s1
            else s1 = ctxSave s" for s1
  proof -
    define s3 where "s3 = setGlobalAlpha (getBlendOpacity (quality cfg))
                  (setGlobalCompositeOperation (getBlendMode (blendMode cfg)) s1)"
    have f: "(if jgt (featherAmount cfg) (Fin 0)
               then applyFeathering (boundingBox face) (featherAmount cfg) (ctxSave s)
               else Inr (ctxSave s)) = Inr s1"
      using s1 by (simp split: if_splits)
    show thesis
    proof (cases "drawImageScaled img (translateX t) (translateY t)
                    (jmul (scaleX t) (Fin (real (img_width img))))
                    (jmul (scaleY t) (Fin (real (img_height img)))) s3")
      case (Inl e)
      have u: "checkUsability img = Inl e"
        using Inl by (auto simp: drawImageScaled_def split: if_splits sum.splits)
      show ?thesis
        by (rule refused[of s1 s3 e])
           (use s1 u in \<open>simp_all add: s3_def\<close>,
            simp add: performAdvancedSwap_def Let_def f Inl[unfolded t_def s3_def])
    next
      case (Inr s4)
      show ?thesis
        by (rule drawn[of s1 s3 s4, OF _ _ _ refl])
           (use s1 Inr in \<open>simp_all add: s3_def t_def\<close>,
            simp add: performAdvancedSwap_def Let_def f Inr[unfolded t_def s3_def])
    qed
  qed
  show thesis
  proof (cases "jgt (featherAmount cfg) (Fin 0)")
    case True
    show ?thesis
    proof (cases "applyFeathering (boundingBox face) (featherAmount cfg) (ctxSave s)")
      case (Inl e)
      show ?thesis
        by (rule thrown[of e]) (simp_all add: True Inl performAdvancedSwap_def Let_def)
    next
      case (Inr s1)
      show ?thesis by (rule after[of s1]) (simp add: True Inr)
    qed
  next
    case False
    show ?thesis by (rule after[of "ctxSave s"]) (simp add: False)
  qed
qed

lemma performAdvancedSwap_frame:
  "ctx (snd (performAdvancedSwap face img cfg s)) = ctx s"
  "stateStack (snd (performAdvancedSwap face img cfg s)) = stateStack s"
  "isInitialized (snd (performAdvancedSwap face img cfg s)) = isInitialized s"
  "canvas_width (snd (performAdvancedSwap face img cfg s)) = canvas_width s"
  "canvas_height (snd (performAdvancedSwap face img cfg s)) = canvas_height s"
proof -
  have "ctx (snd (performAdvancedSwap face img cfg s)) = ctx s \<and>
        stateStack (snd (performAdvancedSwap face img cfg s)) = stateStack s \<and>
        isInitialized (snd (performAdvancedSwap face img cfg s)) = isInitialized s \<and>
        canvas_width (snd (performAdvancedSwap face img cfg s)) = canvas_width s \<and>
        canvas_height (snd (performAdvancedSwap face img cfg s)) = canvas_height s"
  proof (cases rule: performAdvancedSwap_cases[where face=face and img=img and cfg=cfg and s=s])
    case (thrown e)
    then show ?thesis by (simp add: ctxRestore_pop[of _ "ctx s" "stateStack s"])
  next
    case (refused s1 s3 e)
    have s1: "stateStack s1 = ctx s # stateStack s \<and> isInitialized s1 = isInitialized s \<and>
              canvas_width s1 = canvas_width s \<and> canvas_height s1 = canvas_height s"
      using refused(1) by (auto split: if_splits dest: applyFeathering_frame)
    have s3: "stateStack s3 = ctx s # stateStack s \<and> isInitialized s3 = isInitialized s \<and>
              canvas_width s3 = canvas_width s \<and> canvas_height s3 = canvas_height s"
      using s1 by (simp add: refused(2))
    show ?thesis
      using s3 by (simp add: refused(4) ctxRestore_pop[of s3 "ctx s" "stateStack s"])
  next
    case (drawn s1 s3 s4 s7)
    have s1: "stateStack s1 = ctx s # stateStack s \<and> isInitialized s1 = isInitialized s \<and>
              canvas_width s1 = canvas_width s \<and> canvas_height s1 = canvas_height s"
      using drawn(1) by (auto split: if_splits dest: applyFeathering_frame)
    have s4: "stateStack s4 = ctx s # stateStack s \<and> isInitialized s4 = isInitialized s \<and>
              canvas_width s4 = canvas_width s \<and> canvas_height s4 = canvas_height s"
      using s1 drawImageScaled_frame[OF drawn(3)] by (simp add: drawn(2))
    have s7: "stateStack s7 = ctx s # stateStack s \<and> isInitialized s7 = isInitialized s \<and>
              canvas_width s7 = canvas_width s \<and> canvas_height s7 = canvas_height s"
      using s4 by (simp add: drawn(4) Let_def)
    show ?thesis
      using s7 by (simp add: drawn(5) ctxRestore_pop[of s7 "ctx s" "stateStack s"])
  qed
  then show
    "ctx (snd (performAdvancedSwap face img cfg s)) = ctx s"
    "stateStack (snd (performAdvancedSwap face img cfg s)) = stateStack s"
    "isInitialized (snd (performAdvancedSwap face img cfg s)) = isInitialized s"
    "canvas_width (snd (performAdvancedSwap face img cfg s)) = canvas_width s"
    "canvas_height (snd (performAdvancedSwap face img cfg s)) = canvas_height s"
    by simp_all
qed

lemma setGlobalCompositeOperation_valid:
  "op \<in> set compositeOperations \<Longrightarrow>
   setGlobalCompositeOperation (Own op) s =
     s\<lparr> ctx := (ctx s)\<lparr> globalCompositeOperation := op \<rparr> \<rparr>"
  by (simp add: setGlobalCompositeOperation_def)

lemma valid_operations [simp]:
  "''destination-in'' \<in> set compositeOperations"
  "''source-over'' \<in> set compositeOperations"
  by (simp_all add: compositeOperations_def)

lemma applyColorMatching_paints [simp]:
  "paints (bitmap (applyColorMatching bb s)) = paints (bitmap s)"
  by (simp add: applyColorMatching_def getImageData_def putImageData_def Let_def
        split: sum.splits option.splits imageData.splits prod.splits)

lemma ctxRestore_bitmap [simp]: "bitmap (ctxRestore s) = bitmap s"
  by (simp add: ctxRestore_def split: list.splits)

section \<open>Colour matching\<close>

lemma toLong_nonneg:
  assumes "\<not> jlt v (Fin 0)" and "toLong v = Some n"
  shows "0 \<le> n"
  using assms by (cases v) (auto simp: toLong_def Let_def split: if_splits)

lemma pixelAt_put_back:
  assumes "0 \<le> sw" and "0 \<le> sh"
  shows "pixelAt render blank (PutImageData s sx sy sw sh sx sy s) p = pixelAt render blank s p"
  using assms by (simp add: Let_def min_def)

lemma applyColorMatching_bitmap:
  "bitmap (applyColorMatching bb s) = bitmap s \<or>
   (\<exists>sx sy sw sh. toLong (box_width bb) = Some sw \<and> toLong (box_height bb) = Some sh \<and>
      bitmap (applyColorMatching bb s) = PutImageData (bitmap s) sx sy sw sh sx sy (bitmap s))"
  by (auto simp: applyColorMatching_def getImageData_def putImageData_def Let_def
        split: sum.splits option.splits imageData.splits prod.splits)

lemma applyColorMatching_pixels:
  assumes "\<not> jlt (box_width bb) (Fin 0)" and "\<not> jlt (box_height bb) (Fin 0)"
  shows "pixelAt render blank (bitmap (applyColorMatching bb s)) p =
         pixelAt render blank (bitmap s) p"
  using applyColorMatching_bitmap[of bb s] assms
  by (auto simp: pixelAt_put_back toLong_nonneg simp del: pixelAt.simps)

lemma applyColorMatching_ctx:
  "filter (ctx s) = ''none'' \<Longrightarrow> ctx (applyColorMatching bb s) = ctx s"
  by (cases s) (auto simp: applyColorMatching_def getImageData_def putImageData_def setFilter_def
        Let_def split: sum.splits option.splits imageData.splits prod.splits)

text \<open>
  The pass runs only under \<open>colorMatch\<close>; it then reads the region and writes the
  block back at the origin of the region, with the filter set and cleared around the write.
\<close>

lemma applyColorMatching_region:
  assumes "toLong (box_x bb) = Some sx" and "toLong (box_y bb) = Some sy"
    and "toLong (box_width bb) = Some sw" and "toLong (box_height bb) = Some sh"
    and "sw \<noteq> 0" and "sh \<noteq> 0" and "originClean (bitmap s)"
  shows "applyColorMatching bb s =
           setFilter ''none''
             ((setFilter ''contrast(1.05) brightness(1.02) saturate(0.95)'' s)
                \<lparr> bitmap := PutImageData (bitmap s) sx sy sw sh sx sy (bitmap s) \<rparr>)"
  using assms
  by (simp add: applyColorMatching_def getImageData_def putImageData_def Let_def setFilter_def)

lemma colour_pass_only_when_enabled:
  assumes "\<not> colorMatch cfg"
  shows "\<nexists>src sx sy sw sh dx dy b.
           bitmap (snd (performAdvancedSwap face img cfg s)) = PutImageData src sx sy sw sh dx dy b
           \<and> bitmap s \<noteq> PutImageData src sx sy sw sh dx dy b"
proof (cases rule: performAdvancedSwap_cases[where face=face and img=img and cfg=cfg and s=s])
  case (thrown e)
  then show ?thesis by simp
next
  case (refused s1 s3 e)
  have "bitmap s1 = bitmap s \<or> (\<exists>st c. bitmap s1 = Paint st c (bitmap s))"
    using refused(1)
    by (auto simp: applyFeathering_def Let_def split: if_splits sum.splits)
  then show ?thesis by (auto simp: refused(2,4))
next
  case (drawn s1 s3 s4 s7)
  have "bitmap s1 = bitmap s \<or> (\<exists>st c. bitmap s1 = Paint st c (bitmap s))"
    using drawn(1)
    by (auto simp: applyFeathering_def Let_def split: if_splits sum.splits)
  moreover have "bitmap s4 = bitmap s3 \<or> (\<exists>st c. bitmap s4 = Paint st c (bitmap s3))"
    using drawImageScaled_bitmap[OF drawn(3)] by (auto split: if_splits)
  ultimately show ?thesis using assms by (auto simp: drawn(2,4,5) Let_def)
qed

lemma performAdvancedSwap_colorMatch_pixels:
  assumes "\<not> jlt (box_width (boundingBox face)) (Fin 0)"
    and "\<not> jlt (box_height (boundingBox face)) (Fin 0)"
  shows "pixelAt render blank (bitmap (snd (performAdvancedSwap face img cfg s))) p =
         pixelAt render blank
           (bitmap (snd (performAdvancedSwap face img (cfg\<lparr> colorMatch := False \<rparr>) s))) p"
  using assms
  by (simp add: performAdvancedSwap_def Let_def applyColorMatching_pixels
        split: sum.splits del: pixelAt.simps)

text \<open>
  C7, on the worked scenario (colour matching on, region of 100 by 100 at (50, 50)): the
  pass runs and writes back, at the place it was read from, the very block it read; the
  filter is a property of the drawing state, which \<open>putImageData\<close> does not use. Every
  pixel of the result is therefore the pixel of the same invocation with colour matching
  off: no contrast, brightness or saturation adjustment reaches the surface.
\<close>

theorem colour_matching_changes_no_pixel:
  "bitmap (snd (swapFace scenarioEnv scenarioFrame scenarioFace scenarioTarget
                  defaultConfig newService)) =
     PutImageData
       (bitmap (snd (swapFace scenarioEnv scenarioFrame scenarioFace scenarioTarget
                       (defaultConfig\<lparr> colorMatch := False \<rparr>) newService)))
       50 50 100 100 50 50
       (bitmap (snd (swapFace scenarioEnv scenarioFrame scenarioFace scenarioTarget
                       (defaultConfig\<lparr> colorMatch := False \<rparr>) newService))) \<and>
   pixelAt render blank
     (bitmap (snd (swapFace scenarioEnv scenarioFrame scenarioFace scenarioTarget
                     defaultConfig newService))) p =
   pixelAt render blank
     (bitmap (snd (swapFace scenarioEnv scenarioFrame scenarioFace scenarioTarget
                     (defaultConfig\<lparr> colorMatch := False \<rparr>) newService))) p"
proof -
  have b: "bitmap (snd (swapFace scenarioEnv scenarioFrame scenarioFace scenarioTarget
                  defaultConfig newService)) =
     PutImageData
       (bitmap (snd (swapFace scenarioEnv scenarioFrame scenarioFace scenarioTarget
                       (defaultConfig\<lparr> colorMatch := False \<rparr>) newService)))
       50 50 100 100 50 50
       (bitmap (snd (swapFace scenarioEnv scenarioFrame scenarioFace scenarioTarget
                       (defaultConfig\<lparr> colorMatch := False \<rparr>) newService)))"
    by (simp add: scenario_defs pipeline_defs)
  show ?thesis
    by (subst (2) b, subst b, simp only: pixelAt_put_back[of 100 100] simp_thms)
qed

section \<open>The entry point swapFace and the state it leaves\<close>

lemma resize_fresh:
  "isInitialized s0 \<Longrightarrow>
   setCanvasHeight h (setCanvasWidth w s0) =
     \<lparr> isInitialized = True, canvas_width = w, canvas_height = h, ctx = defaultState,
       stateStack = [], bitmap = Blank w h \<rparr>"
  by (cases s0) (simp add: setCanvasWidth_def setCanvasHeight_def)

lemma resize_simps [simp]:
  "ctx (setCanvasHeight h (setCanvasWidth w s0)) = defaultState"
  "canvas_width (setCanvasHeight h (setCanvasWidth w s0)) = w"
  "canvas_height (setCanvasHeight h (setCanvasWidth w s0)) = h"
  "bitmap (setCanvasHeight h (setCanvasWidth w s0)) = Blank w h"
  "stateStack (setCanvasHeight h (setCanvasWidth w s0)) = []"
  "isInitialized (setCanvasHeight h (setCanvasWidth w s0)) = isInitialized s0"
  by (simp_all add: setCanvasWidth_def setCanvasHeight_def)

lemma initialize_ctx:
  assumes "initialize e s = Inr s0"
  shows "globalCompositeOperation (ctx s0) = globalCompositeOperation (ctx s)"
    and "globalAlpha (ctx s0) = globalAlpha (ctx s)"
    and "isInitialized s0"
  using assms
  by (auto simp: initialize_def setupCanvasProcessing_def split: if_splits)

text \<open>The four ways through \<open>swapFace\<close>.\<close>

lemma swapFace_cases:
  obtains
    (init_failed) err where "initialize e s = Inl err"
      and "swapFace e src face tgt cfg s =
             (\<lparr> success = False, imageData = None, error = Some err \<rparr>, s)"
  | (load_failed) s0 where "initialize e s = Inr s0"
      and "loadImage e (getTargetImageForExpression tgt
              (case expression face of Some ex \<Rightarrow> ex | None \<Rightarrow> neutral)) = None"
      and "swapFace e src face tgt cfg s =
             (\<lparr> success = False, imageData = None, error = Some LoadError \<rparr>, s0)"
  | (frame_refused) s0 img err where "initialize e s = Inr s0"
      and "loadImage e (getTargetImageForExpression tgt
              (case expression face of Some ex \<Rightarrow> ex | None \<Rightarrow> neutral)) = Some img"
      and "checkUsability src = Inl err"
      and "swapFace e src face tgt cfg s =
             (\<lparr> success = False, imageData = None, error = Some err \<rparr>,
              setCanvasHeight (img_height src) (setCanvasWidth (img_width src) s0))"
  | (composited) s0 img s3 where "initialize e s = Inr s0"
      and "loadImage e (getTargetImageForExpression tgt
              (case expression face of Some ex \<Rightarrow> ex | None \<Rightarrow> neutral)) = Some img"
      and "drawImage src (Fin 0) (Fin 0)
             (setCanvasHeight (img_height src) (setCanvasWidth (img_width src) s0)) = Inr s3"
      and "snd (swapFace e src face tgt cfg s) = snd (performAdvancedSwap face (onload img) cfg s3)"
      and "fst (swapFace e src face tgt cfg s) =
             (case fst (performAdvancedSwap face (onload img) cfg s3) of
                Some err \<Rightarrow> \<lparr> success = False, imageData = None, error = Some err \<rparr>
              | None \<Rightarrow>
                 (case getImageData (Fin 0) (Fin 0) (Fin (real (img_width src)))
                          (Fin (real (img_height src)))
                          (snd (performAdvancedSwap face (onload img) cfg s3)) of
                    Inl err \<Rightarrow> \<lparr> success = False, imageData = None, error = Some err \<rparr>
                  | Inr d \<Rightarrow> \<lparr> success = True, imageData = Some d, error = None \<rparr>))"
proof (cases "initialize e s")
  case (Inl err)
  show ?thesis by (rule init_failed[of err]) (simp_all add: Inl swapFace_def)
next
  case (Inr s0)
  show ?thesis
  proof (cases "loadImage e (getTargetImageForExpression tgt
              (case expression face of Some ex \<Rightarrow> ex | None \<Rightarrow> neutral))")
    case None
    show ?thesis by (rule load_failed[of s0]) (simp_all add: Inr None swapFace_def)
  next
    case (Some img)
    define s2 where "s2 = setCanvasHeight (img_height src) (setCanvasWidth (img_width src) s0)"
    show ?thesis
    proof (cases "drawImage src (Fin 0) (Fin 0) s2")
      case d: (Inl err)
      have u: "checkUsability src = Inl err"
        using d by (auto simp: drawImage_def split: if_splits sum.splits)
      show ?thesis
        by (rule frame_refused[of s0 img err])
           (simp_all add: Inr Some u swapFace_def Let_def d[unfolded s2_def])
    next
      case d: (Inr s3)
      obtain r s4 where p: "performAdvancedSwap face (onload img) cfg s3 = (r, s4)"
        by (cases "performAdvancedSwap face (onload img) cfg s3")
      have "canvas_width s4 = canvas_width s3" "canvas_height s4 = canvas_height s3"
        using performAdvancedSwap_frame(4,5)[of face "onload img" cfg s3] by (simp_all add: p)
      then have dims: "canvas_width s4 = img_width src" "canvas_height s4 = img_height src"
        using drawImage_frame(2,3)[OF d] by (simp_all add: s2_def)
      have sw: "swapFace e src face tgt cfg s =
         (case r of
            Some err \<Rightarrow> (\<lparr> success = False, imageData = None, error = Some err \<rparr>, s4)
          | None \<Rightarrow>
             (case getImageData (Fin 0) (Fin 0) (Fin (real (canvas_width s4)))
                      (Fin (real (canvas_height s4))) s4 of
                Inl err \<Rightarrow> (\<lparr> success = False, imageData = None, error = Some err \<rparr>, s4)
              | Inr d \<Rightarrow> (\<lparr> success = True, imageData = Some d, error = None \<rparr>, s4)))"
        using p by (simp add: Inr Some swapFace_def Let_def d[unfolded s2_def])
      show ?thesis
      proof (rule composited[of s0 img s3])
        show "snd (swapFace e src face tgt cfg s) =
              snd (performAdvancedSwap face (onload img) cfg s3)"
          by (simp add: sw p split: option.splits sum.splits)
        show "fst (swapFace e src face tgt cfg s) =
               (case fst (performAdvancedSwap face (onload img) cfg s3) of
                  Some err \<Rightarrow> \<lparr> success = False, imageData = None, error = Some err \<rparr>
                | None \<Rightarrow>
                   (case getImageData (Fin 0) (Fin 0) (Fin (real (img_width src)))
                            (Fin (real (img_height src)))
                            (snd (performAdvancedSwap face (onload img) cfg s3)) of
                      Inl err \<Rightarrow> \<lparr> success = False, imageData = None, error = Some err \<rparr>
                    | Inr d \<Rightarrow> \<lparr> success = True, imageData = Some d, error = None \<rparr>))"
          by (simp add: sw p dims split: option.splits sum.splits)
      qed (simp_all add: Inr Some d[unfolded s2_def])
    qed
  qed
qed

lemma swapFace_keeps_defaults:
  assumes "globalCompositeOperation (ctx s) = ''source-over''" and "globalAlpha (ctx s) = 1"
  shows "globalCompositeOperation (ctx (snd (swapFace e src face tgt cfg s))) = ''source-over'' \<and>
         globalAlpha (ctx (snd (swapFace e src face tgt cfg s))) = 1"
proof (cases rule: swapFace_cases[where e=e and s=s and src=src and face=face and tgt=tgt and cfg=cfg])
  case (init_failed err)
  then show ?thesis using assms by simp
next
  case (load_failed s0)
  then show ?thesis using assms initialize_ctx[of e s s0] by simp
next
  case (frame_refused s0 img err)
  then show ?thesis by (simp add: defaultState_def)
next
  case (composited s0 img s3)
  then show ?thesis
    using drawImage_frame(5)[OF composited(3)]
    by (simp add: performAdvancedSwap_frame defaultState_def)
qed

lemma reachable_defaults:
  "reachable s \<Longrightarrow>
   globalCompositeOperation (ctx s) = ''source-over'' \<and> globalAlpha (ctx s) = 1"
proof (induction rule: reachable.induct)
  case reachable_new
  show ?case by (simp add: newService_def defaultState_def)
next
  case (reachable_initialize s e s')
  then show ?case using initialize_ctx[of e s s'] by simp
next
  case (reachable_swapFace s e sourceImage face target config)
  then show ?case using swapFace_keeps_defaults by blast
next
  case (reachable_dispose s)
  then show ?case by (simp add: dispose_def)
qed

lemma swapFace_fresh:
  assumes "tfReady e"
    and "loadImage e (getTargetImageForExpression tgt
              (case expression face of Some ex \<Rightarrow> ex | None \<Rightarrow> neutral)) \<noteq> None"
  shows "swapFace e src face tgt cfg s = swapFace e src face tgt cfg s'"
proof -
  obtain img where img: "loadImage e (getTargetImageForExpression tgt
              (case expression face of Some ex \<Rightarrow> ex | None \<Rightarrow> neutral)) = Some img"
    using assms(2) by blast
  have "\<exists>s0. initialize e t = Inr s0 \<and> isInitialized s0" for t
    using assms(1) by (simp add: initialize_def)
  then obtain a b where a: "initialize e s = Inr a" "isInitialized a"
    and b: "initialize e s' = Inr b" "isInitialized b"
    by blast
  show ?thesis
    by (simp add: swapFace_def a b img Let_def resize_fresh cong: sum.case_cong)
qed

text \<open>
  C5. In every state a service object reaches (from construction, by any sequence of its
  public methods, successful or not), the blend mode of the surface is \<open>source-over\<close>
  and its opacity 1; and a call of \<open>swapFace\<close> whose set-up succeeds gives, on that
  surface, exactly the result and the surface it gives on a new service object: nothing
  of an earlier call carries over.
\<close>

theorem surface_state_reset:
  assumes "reachable s"
  shows "globalCompositeOperation (ctx s) = ''source-over'' \<and> globalAlpha (ctx s) = 1 \<and>
         (tfReady e \<and> loadImage e (getTargetImageForExpression tgt
              (case expression face of Some ex \<Rightarrow> ex | None \<Rightarrow> neutral)) \<noteq> None \<longrightarrow>
          swapFace e src face tgt cfg s = swapFace e src face tgt cfg newService)"
  using reachable_defaults[OF assms] swapFace_fresh[of e tgt face src cfg s newService]
  by blast

theorem surface_state_reset_witness:
  "reachable (snd (swapFace scenarioEnv scenarioFrame scenarioFace scenarioTarget
                     (defaultConfig\<lparr> blendMode := ''multiply'', quality := ''low'' \<rparr>) newService)) \<and>
   globalCompositeOperation (ctx (snd (swapFace scenarioEnv scenarioFrame scenarioFace
      scenarioTarget (defaultConfig\<lparr> blendMode := ''multiply'', quality := ''low'' \<rparr>) newService)))
     = ''source-over'' \<and>
   globalAlpha (ctx (snd (swapFace scenarioEnv scenarioFrame scenarioFace
      scenarioTarget (defaultConfig\<lparr> blendMode := ''multiply'', quality := ''low'' \<rparr>) newService)))
     = 1 \<and>
   swapFace scenarioEnv scenarioFrame scenarioFace scenarioTarget defaultConfig
     (snd (swapFace scenarioEnv scenarioFrame scenarioFace scenarioTarget
             (defaultConfig\<lparr> blendMode := ''multiply'', quality := ''low'' \<rparr>) newService)) =
   swapFace scenarioEnv scenarioFrame scenarioFace scenarioTarget defaultConfig newService"
proof -
  have r: "reachable (snd (swapFace scenarioEnv scenarioFrame scenarioFace scenarioTarget
                     (defaultConfig\<lparr> blendMode := ''multiply'', quality := ''low'' \<rparr>) newService))"
    by (rule reachable_swapFace[OF reachable_new])
  have l: "tfReady scenarioEnv \<and>
           loadImage scenarioEnv (getTargetImageForExpression scenarioTarget
              (case expression scenarioFace of Some ex \<Rightarrow> ex | None \<Rightarrow> neutral)) \<noteq> None"
    by (simp add: scenario_defs getTargetImageForExpression_def)
  show ?thesis
    using surface_state_reset[OF r, of scenarioEnv scenarioTarget scenarioFace scenarioFrame
            defaultConfig] r l
    by blast
qed

section \<open>Blend mode and opacity tables\<close>

lemma getBlendMode_table:
  assumes "mode \<notin> set objectPrototypeKeys"
  shows "getBlendMode mode =
           Own (if mode = ''overlay'' then ''overlay''
                else if mode = ''multiply'' then ''multiply'' else ''source-over'')"
  using assms
  by (simp add: getBlendMode_def getProp_def orElse_def blendModes_def)

lemma getBlendOpacity_table:
  assumes "q \<notin> set objectPrototypeKeys"
  shows "getBlendOpacity q =
           Own (if q = ''low'' then lit 0.8 else if q = ''high'' then lit 0.95 else lit 0.9)"
  using assms
  by (simp add: getBlendOpacity_def getProp_def orElse_def opacityMap_def)

lemma getBlendMode_inherited:
  assumes "mode \<in> set objectPrototypeKeys"
  shows "getBlendMode mode = Inherited mode"
  using assms
  by (auto simp: getBlendMode_def getProp_def orElse_def blendModes_def objectPrototypeKeys_def)

lemma getBlendOpacity_inherited:
  assumes "q \<in> set objectPrototypeKeys"
  shows "getBlendOpacity q = Inherited q"
  using assms
  by (auto simp: getBlendOpacity_def getProp_def orElse_def opacityMap_def objectPrototypeKeys_def)

text \<open>The blend mode and the opacity never change whether the step throws.\<close>

lemma performAdvancedSwap_exception:
  "fst (performAdvancedSwap face img (cfg\<lparr> blendMode := mode, quality := q \<rparr>) s) =
   fst (performAdvancedSwap face img cfg s)"
  by (simp add: performAdvancedSwap_def drawImageScaled_def Let_def
        split: sum.splits if_splits)

text \<open>
  What the two assignments before the overlay is drawn leave in the drawing state, when
  the blend mode before them is \<open>source-over\<close>.
\<close>

lemma blend_state:
  assumes "globalCompositeOperation (ctx s) = ''source-over''"
  shows "ctx (setGlobalAlpha (getBlendOpacity q)
                (setGlobalCompositeOperation (getBlendMode m) s)) =
         (ctx s)\<lparr> globalCompositeOperation :=
                    (if m = ''overlay'' then ''overlay''
                     else if m = ''multiply'' then ''multiply'' else ''source-over''),
                  globalAlpha :=
                    (if q = ''low'' then 3602879701896397 / 2 ^ 52
                     else if q = ''high'' then 4278419646001971 / 2 ^ 52
                     else if q \<in> set objectPrototypeKeys then globalAlpha (ctx s)
                     else 8106479329266893 / 2 ^ 53) \<rparr>"
proof -
  have m: "ctx (setGlobalCompositeOperation (getBlendMode m) s) =
           (ctx s)\<lparr> globalCompositeOperation :=
                    (if m = ''overlay'' then ''overlay''
                     else if m = ''multiply'' then ''multiply'' else ''source-over'') \<rparr>"
  proof (cases "m \<in> set objectPrototypeKeys")
    case True
    then have "m \<noteq> ''overlay''" "m \<noteq> ''multiply''"
      by (auto simp: objectPrototypeKeys_def)
    then show ?thesis
      using assms by (simp add: getBlendMode_inherited[OF True] setGlobalCompositeOperation_def)
  next
    case False
    show ?thesis
      by (simp add: getBlendMode_table[OF False] setGlobalCompositeOperation_def
            compositeOperations_def)
  qed
  show ?thesis
  proof (cases "q \<in> set objectPrototypeKeys")
    case True
    then have "q \<noteq> ''low''" "q \<noteq> ''high''"
      by (auto simp: objectPrototypeKeys_def)
    then show ?thesis
      using True by (simp add: getBlendOpacity_inherited[OF True] setGlobalAlpha_def m)
  next
    case False
    show ?thesis
      using False
      by (simp add: getBlendOpacity_table[OF False] setGlobalAlpha_def m lit_values)
  qed
qed

text \<open>
  C4, on the worked scenario with any \<open>blendMode\<close> and any \<open>quality\<close>. The call
  succeeds, and the overlay is painted under the blend mode and the opacity that
  \<open>performAdvancedSwap\<close> looks up: \<open>overlay\<close> and \<open>multiply\<close> select the
  operation of the same name, and \<open>normal\<close> and every other value select
  \<open>source-over\<close>; \<open>low\<close> gives 0.8, \<open>high\<close> gives 0.95 and \<open>medium\<close> gives 0.9
  (the binary64 values of these literals), and so does every other value except the names
  of the members inherited from \<open>Object.prototype\<close>. For such a name the lookup returns
  the inherited member, the fallback is not taken and the surface ignores the
  assignment: at the quality \<open>constructor\<close> the overlay is painted under opacity 1,
  not 0.9.
\<close>

theorem blend_lookup_inherited_key:
  "success (fst (swapFace scenarioEnv scenarioFrame scenarioFace scenarioTarget
        (defaultConfig\<lparr> blendMode := m, quality := q \<rparr>) newService)) \<and>
   map (\<lambda>(st, c). (globalCompositeOperation st, globalAlpha st, c))
     (paints (bitmap (snd (swapFace scenarioEnv scenarioFrame scenarioFace scenarioTarget
        (defaultConfig\<lparr> blendMode := m, quality := q \<rparr>) newService)))) =
   [(''source-over'', 1, DrawImage scenarioFrame (Fin 0) (Fin 0)),
    (''destination-in'', 1, FillRect (Fin 0) (Fin 0) (Fin 200) (Fin 200)),
    (if m = ''overlay'' then ''overlay'' else if m = ''multiply'' then ''multiply''
     else ''source-over'',
     if q = ''low'' then 3602879701896397 / 2 ^ 52
     else if q = ''high'' then 4278419646001971 / 2 ^ 52
     else if q \<in> set objectPrototypeKeys then 1
     else 8106479329266893 / 2 ^ 53,
     DrawImageScaled scenarioOverlay (Fin 50) (Fin 50) (Fin 100) (Fin 100))] \<and>
   getBlendOpacity ''constructor'' = Inherited ''constructor'' \<and>
   map (\<lambda>(st, c). globalAlpha st)
     (paints (bitmap (snd (swapFace scenarioEnv scenarioFrame scenarioFace scenarioTarget
        (defaultConfig\<lparr> quality := ''constructor'' \<rparr>) newService)))) = [1, 1, 1]"
proof -
  have c: "''constructor'' \<in> set objectPrototypeKeys"
    by (simp add: objectPrototypeKeys_def)
  have a: "success (fst (swapFace scenarioEnv scenarioFrame scenarioFace scenarioTarget
        (defaultConfig\<lparr> blendMode := m, quality := q \<rparr>) newService))"
    by (simp add: scenario_defs surface_defs setGlobalCompositeOperation_valid)
  have b: "map (\<lambda>(st, c). (globalCompositeOperation st, globalAlpha st, c))
     (paints (bitmap (snd (swapFace scenarioEnv scenarioFrame scenarioFace scenarioTarget
        (defaultConfig\<lparr> blendMode := m, quality := q \<rparr>) newService)))) =
   [(''source-over'', 1, DrawImage scenarioFrame (Fin 0) (Fin 0)),
    (''destination-in'', 1, FillRect (Fin 0) (Fin 0) (Fin 200) (Fin 200)),
    (if m = ''overlay'' then ''overlay'' else if m = ''multiply'' then ''multiply''
     else ''source-over'',
     if q = ''low'' then 3602879701896397 / 2 ^ 52
     else if q = ''high'' then 4278419646001971 / 2 ^ 52
     else if q \<in> set objectPrototypeKeys then 1
     else 8106479329266893 / 2 ^ 53,
     DrawImageScaled scenarioOverlay (Fin 50) (Fin 50) (Fin 100) (Fin 100))]" for m q
    by (simp add: scenario_defs surface_defs setGlobalCompositeOperation_valid blend_state)
  have d: "map (\<lambda>(st, c). globalAlpha st)
     (paints (bitmap (snd (swapFace scenarioEnv scenarioFrame scenarioFace scenarioTarget
        (defaultConfig\<lparr> quality := ''constructor'' \<rparr>) newService)))) = [1, 1, 1]"
    by (simp add: scenario_defs surface_defs setGlobalCompositeOperation_valid blend_state c)
  show ?thesis
    using a b d getBlendOpacity_inherited[OF c] by (simp only: simp_thms)
qed

section \<open>Order of the feather mask and the overlay\<close>

lemma applyFeathering_Inr:
  assumes "applyFeathering bb a s = Inr s'"
  obtains g x y w h where
    "bitmap s' = Paint ((ctx s)\<lparr> globalCompositeOperation := ''destination-in'',
                                  fillStyle := Gradient g \<rparr>)
                   (FillRect x y w h) (bitmap s)"
    and "ctx s' = (ctx s)\<lparr> globalCompositeOperation := ''source-over'',
                           fillStyle := Gradient g \<rparr>"
proof -
  let ?r = "jdiv (jmax (box_width bb) (box_height bb)) (Fin 2)"
  let ?cx = "jadd (box_x bb) (jdiv (box_width bb) (Fin 2))"
  let ?cy = "jadd (box_y bb) (jdiv (box_height bb) (Fin 2))"
  obtain g0 where g0: "createRadialGradient ?cx ?cy (jmul ?r (jsub (Fin 1) a)) ?cx ?cy ?r = Inr g0"
    using assms by (cases "createRadialGradient ?cx ?cy (jmul ?r (jsub (Fin 1) a)) ?cx ?cy ?r")
      (simp_all add: applyFeathering_def Let_def)
  let ?g = "addColorStop 1 (255, 255, 255, 0) (addColorStop 0 (255, 255, 255, 1) g0)"
  have s': "s' = setGlobalCompositeOperation (Own ''source-over'')
             (paint (FillRect (jsub (box_x bb) ?r) (jsub (box_y bb) ?r)
                       (jadd (box_width bb) (jmul ?r (Fin 2)))
                       (jadd (box_height bb) (jmul ?r (Fin 2))))
                (setFillStyle (Gradient ?g)
                   (setGlobalCompositeOperation (Own ''destination-in'') s)))"
    using assms by (simp add: applyFeathering_def Let_def g0)
  show ?thesis
    by (rule that[of ?g "jsub (box_x bb) ?r" "jsub (box_y bb) ?r"
                 "jadd (box_width bb) (jmul ?r (Fin 2))" "jadd (box_height bb) (jmul ?r (Fin 2))"])
       (simp_all add: s' setGlobalCompositeOperation_valid setFillStyle_def paint_def)
qed

text \<open>
  In every invocation, \<open>performAdvancedSwap\<close> adds to the surface the feather mask, if
  any, and then the overlay, if it is painted: a mask is a single fill under
  \<open>destination-in\<close> with a gradient as fill style, and there is none unless
  \<open>featherAmount > 0\<close>.
\<close>

lemma performAdvancedSwap_paints:
  obtains mask overlay where
    "paints (bitmap (snd (performAdvancedSwap face img cfg s))) =
       paints (bitmap s) @ mask @ overlay"
    and "mask = [] \<or>
         (jgt (featherAmount cfg) (Fin 0) \<and>
          (\<exists>st x y w h g. mask = [(st, FillRect x y w h)] \<and>
             globalCompositeOperation st = ''destination-in'' \<and> fillStyle st = Gradient g))"
    and "overlay = [] \<or> (\<exists>st tx ty dw dh. overlay = [(st, DrawImageScaled img tx ty dw dh)])"
proof -
  have feather: "\<exists>mask. paints (bitmap s1) = paints (bitmap s) @ mask \<and>
       (mask = [] \<or>
         (jgt (featherAmount cfg) (Fin 0) \<and>
          (\<exists>st x y w h g. mask = [(st, FillRect x y w h)] \<and>
             globalCompositeOperation st = ''destination-in'' \<and> fillStyle st = Gradient g)))"
    if "if jgt (featherAmount cfg) (Fin 0)
        then applyFeathering (boundingBox face) (featherAmount cfg) (ctxSave s) = Inr s1
        else s1 = ctxSave s" for s1
  proof (cases "jgt (featherAmount cfg) (Fin 0)")
    case True
    then have "applyFeathering (boundingBox face) (featherAmount cfg) (ctxSave s) = Inr s1"
      using that by simp
    then obtain g x y w h where
      "bitmap s1 = Paint ((ctx (ctxSave s))\<lparr> globalCompositeOperation := ''destination-in'',
                                  fillStyle := Gradient g \<rparr>)
                   (FillRect x y w h) (bitmap (ctxSave s))"
      by (rule applyFeathering_Inr)
    then show ?thesis using True by simp
  next
    case False
    then show ?thesis using that by simp
  qed
  show thesis
  proof (cases rule: performAdvancedSwap_cases[where face=face and img=img and cfg=cfg and s=s])
    case (thrown e)
    show ?thesis by (rule that[of "[]" "[]"]) (simp_all add: thrown(3))
  next
    case (refused s1 s3 e)
    obtain mask where m: "paints (bitmap s1) = paints (bitmap s) @ mask"
       "mask = [] \<or>
         (jgt (featherAmount cfg) (Fin 0) \<and>
          (\<exists>st x y w h g. mask = [(st, FillRect x y w h)] \<and>
             globalCompositeOperation st = ''destination-in'' \<and> fillStyle st = Gradient g))"
      using feather[OF refused(1)] by blast
    show ?thesis
      by (rule that[of mask "[]"]) (use m in \<open>simp_all add: refused(2,4)\<close>)
  next
    case (drawn s1 s3 s4 s7)
    obtain mask where m: "paints (bitmap s1) = paints (bitmap s) @ mask"
       "mask = [] \<or>
         (jgt (featherAmount cfg) (Fin 0) \<and>
          (\<exists>st x y w h g. mask = [(st, FillRect x y w h)] \<and>
             globalCompositeOperation st = ''destination-in'' \<and> fillStyle st = Gradient g))"
      using feather[OF drawn(1)] by blast
    have "\<exists>overlay. paints (bitmap s4) = paints (bitmap s3) @ overlay \<and>
            (overlay = [] \<or> (\<exists>st tx ty dw dh. overlay = [(st, DrawImageScaled img tx ty dw dh)]))"
      using drawImageScaled_bitmap[OF drawn(3)] by (auto split: if_splits)
    then obtain overlay where o: "paints (bitmap s4) = paints (bitmap s3) @ overlay"
      "overlay = [] \<or> (\<exists>st tx ty dw dh. overlay = [(st, DrawImageScaled img tx ty dw dh)])"
      by blast
    have "paints (bitmap s7) = paints (bitmap s4)"
      by (simp add: drawn(4) Let_def)
    then show ?thesis
      by (intro that[of mask overlay]) (use m o in \<open>simp_all add: drawn(2,5)\<close>)
  qed
qed

text \<open>
  Without a positive feather amount the step adds no fill to the surface (the fills are
  the painting calls without an image).
\<close>

lemma no_mask_without_feather:
  assumes "\<not> jgt (featherAmount cfg) (Fin 0)"
  shows "[p \<leftarrow> paints (bitmap (snd (performAdvancedSwap face img cfg s))).
            paintedImage (snd p) = None] =
         [p \<leftarrow> paints (bitmap s). paintedImage (snd p) = None]"
proof -
  obtain mask overlay where
    p: "paints (bitmap (snd (performAdvancedSwap face img cfg s))) =
          paints (bitmap s) @ mask @ overlay"
    and m: "mask = [] \<or> jgt (featherAmount cfg) (Fin 0)"
    and o: "overlay = [] \<or> (\<exists>st tx ty dw dh. overlay = [(st, DrawImageScaled img tx ty dw dh)])"
    using performAdvancedSwap_paints[of face img cfg s] by metis
  have "mask = []" using m assms by simp
  then show ?thesis using p o by auto
qed

text \<open>
  C2, on the worked scenario (feather amount 0.5). The surface receives the frame, then
  the mask fill, then the overlay: the fill under \<open>destination-in\<close> is issued before
  the overlay is drawn, so it masks the frame, and the overlay is painted after it, under
  \<open>source-over\<close>, with no mask applied to it.
\<close>

theorem mask_fill_precedes_overlay:
  "paints (bitmap (snd (swapFace scenarioEnv scenarioFrame scenarioFace scenarioTarget
       defaultConfig newService))) =
     [(defaultState, DrawImage scenarioFrame (Fin 0) (Fin 0)),
      (defaultState\<lparr> globalCompositeOperation := ''destination-in'',
          fillStyle := Gradient
            \<lparr> grad_x0 = 100, grad_y0 = 100, grad_r0 = 25,
              grad_x1 = 100, grad_y1 = 100, grad_r1 = 50,
              colorStops = [(0, (255, 255, 255, 1)), (1, (255, 255, 255, 0))] \<rparr> \<rparr>,
       FillRect (Fin 0) (Fin 0) (Fin 200) (Fin 200)),
      (defaultState\<lparr> globalAlpha := 8106479329266893 / 2 ^ 53,
          fillStyle := Gradient
            \<lparr> grad_x0 = 100, grad_y0 = 100, grad_r0 = 25,
              grad_x1 = 100, grad_y1 = 100, grad_r1 = 50,
              colorStops = [(0, (255, 255, 255, 1)), (1, (255, 255, 255, 0))] \<rparr> \<rparr>,
       DrawImageScaled scenarioOverlay (Fin 50) (Fin 50) (Fin 100) (Fin 100))]"
  by (simp add: scenario_defs pipeline_defs)

end
